theory Spec2Isabelle
  imports Complex_Main
begin

section \<open>SWANSIM: a shallow embedding of the simulation core\<close>

text \<open>
  Python floats are modelled as \<^typ>\<open>real\<close>, Python ints as \<^typ>\<open>int\<close>; the
  wealth share of \<open>inequality.py\<close>, whose monotonicity depends on the rounding, is
  written over an arithmetic that is either the real numbers or IEEE binary64. Every
  exception the modelled code can raise is a value of \<open>error\<close>; a function that can
  raise returns \<open>error + 'a\<close> with \<open>Inl\<close> for the exception. An attribute that
  \<open>__init__\<close> does not create is an \<open>option\<close> field, \<open>None\<close> until some method
  assigns it; reading it while \<open>None\<close> is Python's AttributeError.
\<close>

datatype error =
  AttributeError | ZeroDivisionError | TypeError | KeyError | IndexError | NetworkXError

text \<open>Python's \<open>int(x)\<close> on a float truncates towards zero.\<close>

definition py_int :: "real \<Rightarrow> int" where
  "py_int x = (if 0 \<le> x then \<lfloor>x\<rfloor> else \<lceil>x\<rceil>)"

text \<open>\<open>np.clip(x, lo, hi)\<close> is \<open>minimum(maximum(x, lo), hi)\<close>.\<close>

definition np_clip :: "real \<Rightarrow> real \<Rightarrow> real \<Rightarrow> real" where
  "np_clip x lo hi = min (max x lo) hi"

subsection \<open>simulation/agents/firms.py\<close>

record firm =
  fid :: int
  archetype :: string
  capital :: real
  employees :: int
  production :: real
  price :: real
  alive :: bool
  productivity :: real
  pricing_power :: real
  credit_cost :: real
  desired_labor :: "int option"
  revenue :: "real option"
  wage_bill :: "real option"
  debt :: "real option"

text \<open>
  The dictionary literal \<open>{'startup': a, 'sme': b, 'mnc': c}[archetype]\<close>: any other key
  raises KeyError.
\<close>

definition archetype_table :: "real \<Rightarrow> real \<Rightarrow> real \<Rightarrow> string \<Rightarrow> error + real" where
  "archetype_table a b c k =
     (if k = ''startup'' then Inr a
      else if k = ''sme'' then Inr b
      else if k = ''mnc'' then Inr c
      else Inl KeyError)"

text \<open>
  \<open>FirmAgent.__init__(id, archetype, config)\<close>. It assigns id, archetype, capital,
  employees, production, price, alive, productivity, pricing_power and credit_cost, and
  nothing else: \<open>desired_labor\<close>, \<open>revenue\<close>, \<open>wage_bill\<close> and \<open>debt\<close> do not exist
  on a fresh firm.
\<close>

definition FirmAgent_init :: "int \<Rightarrow> string \<Rightarrow> error + firm" where
  "FirmAgent_init i a =
     (case archetype_table (8/10) 1 (13/10) a of Inl e \<Rightarrow> Inl e | Inr pr \<Rightarrow>
     (case archetype_table (9/10) 1 (12/10) a of Inl e \<Rightarrow> Inl e | Inr pp \<Rightarrow>
     (case archetype_table (10/100) (6/100) (3/100) a of Inl e \<Rightarrow> Inl e | Inr cc \<Rightarrow>
      Inr \<lparr> fid = i, archetype = a,
            capital = (if a = ''startup'' then 1000 else if a = ''sme'' then 10000 else 100000),
            employees = 0, production = 0, price = 10, alive = True,
            productivity = pr, pricing_power = pp, credit_cost = cc,
            desired_labor = None, revenue = None, wage_bill = None, debt = None \<rparr>)))"

text \<open>
  The \<open>market_conditions\<close> dictionary: \<open>demand\<close>, \<open>wage\<close> and \<open>inflation\<close> are read with
  \<open>[...]\<close>, \<open>shock_multiplier\<close> with \<open>.get(..., 1.0)\<close>.
\<close>

record market_conditions =
  mc_demand :: real
  mc_wage :: real
  mc_inflation :: real
  mc_shock_multiplier :: "real option"

text \<open>The locals of \<open>FirmAgent.step\<close>, in the order the method computes them.\<close>

definition expected_demand :: "firm \<Rightarrow> market_conditions \<Rightarrow> real" where
  "expected_demand f mc =
     max (mc_demand mc) 100
       * (case mc_shock_multiplier mc of None \<Rightarrow> 1 | Some s \<Rightarrow> s)
       * productivity f"

definition labor_required :: "firm \<Rightarrow> market_conditions \<Rightarrow> error + int" where
  "labor_required f mc =
     (if productivity f = 0 then Inl ZeroDivisionError
      else Inr (py_int (expected_demand f mc / productivity f)))"

definition max_labor_budget :: "firm \<Rightarrow> market_conditions \<Rightarrow> real" where
  "max_labor_budget f mc = capital f / max (mc_wage mc) 1"

text \<open>\<open>FirmAgent.step(market_conditions)\<close>.\<close>

definition firm_step :: "market_conditions \<Rightarrow> firm \<Rightarrow> error + firm" where
  "firm_step mc f =
     (if \<not> alive f then Inr (f\<lparr>desired_labor := Some 0, production := 0\<rparr>)
      else (case labor_required f mc of
          Inl e \<Rightarrow> Inl e
        | Inr lr \<Rightarrow>
            Inr (f\<lparr>desired_labor := Some (min lr (py_int (max_labor_budget f mc))),
                   price := price f * (1 + mc_inflation mc * (1/2) * pricing_power f),
                   revenue := Some 0,
                   wage_bill := Some 0\<rparr>)))"

text \<open>\<open>FirmAgent.produce()\<close>.\<close>

definition produce :: "firm \<Rightarrow> firm" where
  "produce f = f\<lparr>production := real_of_int (employees f) * productivity f\<rparr>"

text \<open>
  \<open>FirmAgent.post_market_step()\<close>. It reads \<open>revenue\<close> and \<open>wage_bill\<close> of a firm that
  is alive.
\<close>

definition post_market_step :: "firm \<Rightarrow> error + firm" where
  "post_market_step f =
     (if \<not> alive f then Inr f
      else case (revenue f, wage_bill f) of
          (Some r, Some w) \<Rightarrow>
            (let capital_cost = capital f * credit_cost f;
                 profit = r - w - capital_cost;
                 f' = f\<lparr>capital := capital f + profit\<rparr>
             in if capital f' < 0
                then Inr (f'\<lparr>alive := False, employees := 0, production := 0\<rparr>)
                else Inr f')
        | _ \<Rightarrow> Inl AttributeError)"

subsection \<open>simulation/agents/households.py, simulation/state.py\<close>

text \<open>
  \<open>HouseholdAgent.__init__\<close> assigns id, social_class, wealth, consumption, savings and
  unrest; \<open>employed\<close> is first assigned by the labour market.
\<close>

record household =
  hid :: int
  social_class :: string
  wealth :: real
  consumption :: real
  savings :: real
  unrest :: real
  employed :: "bool option"

record economic_state =
  gdp :: real
  gdp_last :: real
  gdp_growth :: real
  inflation :: real
  unemployment :: real
  interest_rate :: real
  tax_rate :: real
  gini_coeff :: real
  wage_index :: real
  price_index :: real
  avg_unrest :: real
  top1_wealth_share :: real
  welfare_spending :: real
  capital_controls :: real
  regime :: string

text \<open>
  \<open>GlobalState.households\<close> is a collection the government agent iterates over, reading
  the attributes \<open>size\<close> (here \<open>member_size\<close>) and \<open>unrest_level\<close> of each element.
  An element that has no such attribute (a key of the declared \<open>Dict[str, Any]\<close>, or a
  \<open>HouseholdAgent\<close>, which has \<open>unrest\<close> only) carries \<open>None\<close> there.
\<close>

record gs_member =
  member_size :: "real option"
  unrest_level :: "real option"

record global_state =
  economics :: economic_state
  gs_households :: "gs_member list"

subsection \<open>rl/rewards.py\<close>

text \<open>
  \<open>RewardFunctions.household_reward(consumption, inflation, unemployment_risk,
  unrest_exposure, alpha=1.0, beta=1.2, gamma=1.5)\<close>.
\<close>

definition household_reward ::
  "real \<Rightarrow> real \<Rightarrow> real \<Rightarrow> real \<Rightarrow> real \<Rightarrow> real \<Rightarrow> real \<Rightarrow> real" where
  "household_reward consumption0 inflation0 unemployment_risk0 unrest_exposure0 alpha beta gamma =
     (let consumption1 = max consumption0 (1/1000000);
          inflation1 = np_clip inflation0 0 1;
          unemployment_risk1 = np_clip unemployment_risk0 0 1;
          unrest_exposure1 = np_clip unrest_exposure0 0 1;
          utility = ln consumption1;
          penalty = alpha * inflation1 + beta * unemployment_risk1
                    + gamma * unrest_exposure1 ^ 2;
          reward = utility - penalty
      in np_clip reward (-5) 5)"

text \<open>
  \<open>RewardFunctions.government_reward(gdp_growth, inflation, unemployment, unrest,
  inequality, alpha=0.8, beta=1.2, gamma=2.0, delta=1.0)\<close>.
\<close>

definition government_reward ::
  "real \<Rightarrow> real \<Rightarrow> real \<Rightarrow> real \<Rightarrow> real \<Rightarrow> real \<Rightarrow> real \<Rightarrow> real \<Rightarrow> real \<Rightarrow> real" where
  "government_reward gdp_growth0 inflation0 unemployment0 unrest0 inequality0
       alpha beta gamma delta =
     (let gdp_growth1 = np_clip gdp_growth0 (-(25/100)) (25/100);
          inflation1 = np_clip inflation0 0 1;
          unemployment1 = np_clip unemployment0 0 1;
          unrest1 = np_clip unrest0 0 1;
          inequality1 = np_clip inequality0 0 1;
          reward = gdp_growth1 - alpha * inflation1 - beta * unemployment1
                   - gamma * unrest1 ^ 2 - delta * inequality1;
          reward1 = (if unrest1 > 85/100 \<and> inequality1 > 6/10 then reward - 2 else reward)
      in np_clip reward1 (-5) 5)"

text \<open>\<open>RewardFunctions.utility_consumption(consumption)\<close>.\<close>

definition utility_consumption :: "real \<Rightarrow> real" where
  "utility_consumption c = ln (max c (1/1000000))"

text \<open>
  A Python call that passes every argument by keyword: a keyword that is not a parameter
  of the function raises TypeError, and so does a parameter without default that no
  keyword supplies. Otherwise each parameter is bound to its keyword's value, or to its
  default.
\<close>

definition bind_keywords ::
  "string list \<Rightarrow> (string \<times> real) list \<Rightarrow> (string \<times> real) list \<Rightarrow> error + (string \<Rightarrow> real)" where
  "bind_keywords required defaults kwargs =
     (if list_ex (\<lambda>k. k \<notin> set required \<and> k \<notin> set (map fst defaults)) (map fst kwargs)
      then Inl TypeError
      else if list_ex (\<lambda>r. r \<notin> set (map fst kwargs)) required
      then Inl TypeError
      else Inr (\<lambda>k. case map_of kwargs k of
                       Some v \<Rightarrow> v
                     | None \<Rightarrow> (case map_of defaults k of Some d \<Rightarrow> d | None \<Rightarrow> 0)))"

definition call_household_reward :: "(string \<times> real) list \<Rightarrow> error + real" where
  "call_household_reward kwargs =
     (case bind_keywords
             [''consumption'', ''inflation'', ''unemployment_risk'', ''unrest_exposure'']
             [(''alpha'', 1), (''beta'', 12/10), (''gamma'', 15/10)] kwargs of
        Inl e \<Rightarrow> Inl e
      | Inr arg \<Rightarrow>
          Inr (household_reward (arg ''consumption'') (arg ''inflation'')
                 (arg ''unemployment_risk'') (arg ''unrest_exposure'')
                 (arg ''alpha'') (arg ''beta'') (arg ''gamma'')))"

definition call_government_reward :: "(string \<times> real) list \<Rightarrow> error + real" where
  "call_government_reward kwargs =
     (case bind_keywords
             [''gdp_growth'', ''inflation'', ''unemployment'', ''unrest'', ''inequality'']
             [(''alpha'', 8/10), (''beta'', 12/10), (''gamma'', 2), (''delta'', 1)] kwargs of
        Inl e \<Rightarrow> Inl e
      | Inr arg \<Rightarrow>
          Inr (government_reward (arg ''gdp_growth'') (arg ''inflation'')
                 (arg ''unemployment'') (arg ''unrest'') (arg ''inequality'')
                 (arg ''alpha'') (arg ''beta'') (arg ''gamma'') (arg ''delta'')))"

text \<open>
  \<open>HouseholdAgent.compute_reward(global_state, local_exposure)\<close>: the keywords it passes
  are \<open>consumption_utility\<close>, \<open>inflation\<close>, \<open>unemployment\<close> and \<open>unrest_exposure\<close>.
\<close>

definition household_compute_reward :: "household \<Rightarrow> global_state \<Rightarrow> real \<Rightarrow> error + real" where
  "household_compute_reward h gs local_exposure =
     call_household_reward
       [(''consumption_utility'', utility_consumption (consumption h)),
        (''inflation'', inflation (economics gs)),
        (''unemployment'', unemployment (economics gs)),
        (''unrest_exposure'', local_exposure)]"

subsection \<open>simulation/agents/government.py\<close>

text \<open>
  \<open>GovernmentAgent.__init__\<close> sets \<open>prev_gdp = None\<close>; \<open>current_interest_rate\<close> is
  first assigned by the orchestrator's step.
\<close>

record government =
  prev_gdp :: "real option"
  current_interest_rate :: "real option"

text \<open>
  The loop of \<open>_aggregate_unrest\<close>, with its accumulators \<open>total_pop\<close> and
  \<open>weighted_unrest\<close>.
\<close>

fun aggregate_loop :: "gs_member list \<Rightarrow> real \<Rightarrow> real \<Rightarrow> error + (real \<times> real)" where
  "aggregate_loop [] total_pop weighted_unrest = Inr (total_pop, weighted_unrest)"
| "aggregate_loop (h # hs) total_pop weighted_unrest =
     (case member_size h of
        None \<Rightarrow> Inl AttributeError
      | Some s \<Rightarrow>
          (case unrest_level h of
             None \<Rightarrow> Inl AttributeError
           | Some u \<Rightarrow>
               aggregate_loop hs (total_pop + max s 1) (weighted_unrest + max s 1 * u)))"

definition aggregate_unrest :: "global_state \<Rightarrow> error + real" where
  "aggregate_unrest gs =
     (if length (gs_households gs) = 0 then Inr 0
      else case aggregate_loop (gs_households gs) 0 0 of
          Inl e \<Rightarrow> Inl e
        | Inr (total_pop, weighted_unrest) \<Rightarrow>
            if total_pop = 0 then Inl ZeroDivisionError
            else Inr (np_clip (weighted_unrest / total_pop) 0 1))"

text \<open>The local \<open>gdp_growth\<close> of \<open>GovernmentAgent.compute_reward\<close>.\<close>

definition government_gdp_growth :: "real option \<Rightarrow> real \<Rightarrow> real" where
  "government_gdp_growth prev current_gdp =
     (case prev of
        None \<Rightarrow> 0
      | Some p \<Rightarrow> (current_gdp - p) / max p (1/1000000))"

text \<open>
  \<open>GovernmentAgent.compute_reward(global_state)\<close>: the reward, and the agent with its
  GDP memory updated.
\<close>

definition government_compute_reward ::
  "government \<Rightarrow> global_state \<Rightarrow> error + (real \<times> government)" where
  "government_compute_reward g gs =
     (let current_gdp = gdp (economics gs);
          growth = government_gdp_growth (prev_gdp g) current_gdp;
          g' = g\<lparr>prev_gdp := Some current_gdp\<rparr>
      in case aggregate_unrest gs of
           Inl e \<Rightarrow> Inl e
         | Inr u \<Rightarrow>
             (case call_government_reward
                     [(''gdp_growth'', growth),
                      (''inflation'', inflation (economics gs)),
                      (''unemployment'', unemployment (economics gs)),
                      (''unrest'', u),
                      (''inequality'', gini_coeff (economics gs))] of
                Inl e \<Rightarrow> Inl e
              | Inr r \<Rightarrow> Inr (r, g')))"

subsection \<open>simulation/economics/markets.py: the credit market\<close>

text \<open>\<open>MarketMechanism.__init__\<close> reads its five parameters from the configuration.\<close>

record market =
  base_wage :: real
  price_adjustment :: real
  wage_adjustment :: real
  base_interest_rate :: real
  max_leverage :: real

text \<open>The defaults of \<open>config.get\<close>.\<close>

definition default_market :: market where
  "default_market =
     \<lparr> base_wage = 50, price_adjustment = 1/10, wage_adjustment = 1/10,
       base_interest_rate = 5/100, max_leverage = 3 \<rparr>"

text \<open>
  The body of the loop of \<open>clear_credit_market\<close> for one firm. The capital is assigned
  before \<open>f.debt += repayment\<close> reads the debt.
\<close>

definition credit_firm :: "market \<Rightarrow> real \<Rightarrow> firm \<Rightarrow> error + firm" where
  "credit_firm m rate f =
     (if capital f < 0 then
        (let desired_credit = \<bar>capital f\<bar>;
             max_credit = max_leverage m * max (capital f + desired_credit) 1;
             granted_credit = min desired_credit max_credit;
             repayment = granted_credit * (1 + rate);
             f' = f\<lparr>capital := capital f + granted_credit\<rparr>
         in case debt f' of
              None \<Rightarrow> Inl AttributeError
            | Some d \<Rightarrow> Inr (f'\<lparr>debt := Some (d + repayment)\<rparr>))
      else Inr f)"

fun credit_loop :: "market \<Rightarrow> real \<Rightarrow> firm list \<Rightarrow> error + firm list" where
  "credit_loop m rate [] = Inr []"
| "credit_loop m rate (f # fs) =
     (case credit_firm m rate f of
        Inl e \<Rightarrow> Inl e
      | Inr f' \<Rightarrow> (case credit_loop m rate fs of Inl e \<Rightarrow> Inl e | Inr fs' \<Rightarrow> Inr (f' # fs')))"

text \<open>\<open>MarketMechanism.clear_credit_market(firms, government)\<close>: the firms and the rate.\<close>

definition clear_credit_market ::
  "market \<Rightarrow> firm list \<Rightarrow> government \<Rightarrow> error + (firm list \<times> real)" where
  "clear_credit_market m firms g =
     (case current_interest_rate g of
        None \<Rightarrow> Inl AttributeError
      | Some rate \<Rightarrow>
          (case credit_loop m rate firms of
             Inl e \<Rightarrow> Inl e
           | Inr firms' \<Rightarrow> Inr (firms', rate)))"

subsection \<open>simulation/economics/markets.py: the labour and goods markets\<close>

text \<open>The Python slice \<open>xs[:k]\<close>: a negative \<open>k\<close> counts from the end of the list.\<close>

definition py_prefix :: "int \<Rightarrow> 'a list \<Rightarrow> 'a list" where
  "py_prefix k xs =
     (if 0 \<le> k then take (nat k) xs else take (nat (int (length xs) + k)) xs)"

text \<open>\<open>sum(f.desired_labor for f in firms)\<close>.\<close>

fun labor_demand_sum :: "firm list \<Rightarrow> error + int" where
  "labor_demand_sum [] = Inr 0"
| "labor_demand_sum (f # fs) =
     (case desired_labor f of
        None \<Rightarrow> Inl AttributeError
      | Some d \<Rightarrow> (case labor_demand_sum fs of Inl e \<Rightarrow> Inl e | Inr s \<Rightarrow> Inr (d + s)))"

text \<open>
  \<open>np.random.shuffle(households)\<close> reorders the list in place. The random outcome is the
  parameter \<open>perm\<close>: position \<open>i\<close> of the shuffled list holds the household that was at
  position \<open>perm ! i\<close>; \<open>perm\<close> is an outcome of the shuffle when it is a permutation of
  the positions.
\<close>

definition shuffle :: "nat list \<Rightarrow> 'a list \<Rightarrow> 'a list" where
  "shuffle perm xs = map (\<lambda>i. xs ! i) perm"

definition is_shuffle :: "nat list \<Rightarrow> nat \<Rightarrow> bool" where
  "is_shuffle perm n = (sort perm = [0..<n])"

text \<open>The last loop of \<open>clear_labor_market\<close>, for one firm.\<close>

definition assign_employees :: "int \<Rightarrow> int \<Rightarrow> real \<Rightarrow> firm \<Rightarrow> error + firm" where
  "assign_employees n_employed labor_demand wage f =
     (case desired_labor f of
        None \<Rightarrow> Inl AttributeError
      | Some d \<Rightarrow>
          (let e = py_int (real_of_int (d * n_employed) / real_of_int (max labor_demand 1))
           in Inr (f\<lparr>employees := e, wage_bill := Some (real_of_int e * wage)\<rparr>)))"

fun assign_loop :: "int \<Rightarrow> int \<Rightarrow> real \<Rightarrow> firm list \<Rightarrow> error + firm list" where
  "assign_loop n_employed labor_demand wage [] = Inr []"
| "assign_loop n_employed labor_demand wage (f # fs) =
     (case assign_employees n_employed labor_demand wage f of
        Inl e \<Rightarrow> Inl e
      | Inr f' \<Rightarrow>
          (case assign_loop n_employed labor_demand wage fs of
             Inl e \<Rightarrow> Inl e
           | Inr fs' \<Rightarrow> Inr (f' # fs')))"

text \<open>
  \<open>MarketMechanism.clear_labor_market(households, firms)\<close>: the households list as the
  call leaves it, the firms, and the returned wage and unemployment rate. The local
  \<open>employed\<close> of the source is \<open>n_employed\<close> here. \<open>employed / labor_supply\<close> divides
  two ints and raises ZeroDivisionError on an empty list. The slice
  \<open>households[:employed]\<close> holds the same objects as the first \<open>hired\<close> positions of the
  list, so the two loops over the households set \<open>employed = False\<close> everywhere and then
  \<open>employed = True\<close>, \<open>wealth += wage\<close> on those positions.
\<close>

definition clear_labor_market ::
  "market \<Rightarrow> nat list \<Rightarrow> household list \<Rightarrow> firm list
     \<Rightarrow> error + (household list \<times> firm list \<times> real \<times> real)" where
  "clear_labor_market m perm households firms =
     (let labor_supply = int (length households) in
      case labor_demand_sum firms of
        Inl e \<Rightarrow> Inl e
      | Inr labor_demand \<Rightarrow>
          (let excess_demand = labor_demand - labor_supply;
               wage = base_wage m * (1 + wage_adjustment m
                        * tanh (real_of_int excess_demand / real_of_int (max labor_supply 1)));
               n_employed = min labor_supply labor_demand
           in if labor_supply = 0 then Inl ZeroDivisionError
              else
               (let unemployment_rate = 1 - real_of_int n_employed / real_of_int labor_supply;
                    shuffled = shuffle perm households;
                    hired = length (py_prefix n_employed shuffled);
                    hs1 = map (\<lambda>h. h\<lparr>employed := Some False\<rparr>) shuffled;
                    hs2 = map (\<lambda>h. h\<lparr>employed := Some True, wealth := wealth h + wage\<rparr>)
                            (take hired hs1) @ drop hired hs1
                in case assign_loop n_employed labor_demand wage firms of
                     Inl e \<Rightarrow> Inl e
                   | Inr firms' \<Rightarrow> Inr (hs2, firms', wage, unemployment_rate))))"

text \<open>\<open>MarketMechanism.clear_goods_market(households, firms)\<close>: the firms and the multiplier.\<close>

definition clear_goods_market ::
  "market \<Rightarrow> household list \<Rightarrow> firm list \<Rightarrow> firm list \<times> real" where
  "clear_goods_market m households firms =
     (let total_demand = sum_list (map consumption households);
          total_supply = sum_list (map production firms);
          excess_demand = total_demand - total_supply;
          price_multiplier = 1 + price_adjustment m * tanh (excess_demand / max total_supply 1);
          firms1 = map (\<lambda>f. f\<lparr>price := price f * price_multiplier\<rparr>) firms;
          firms2 = (if total_supply > 0
                    then map (\<lambda>f. f\<lparr>revenue := Some (production f / total_supply
                                     * min total_demand total_supply * price f)\<rparr>) firms1
                    else map (\<lambda>f. f\<lparr>revenue := Some 0\<rparr>) firms1)
      in (firms2, price_multiplier))"

subsection \<open>Calls on the agents of a population, in any order\<close>

text \<open>
  A call that raises leaves behind what it has assigned until then; the next definitions
  keep that state. In \<open>clear_credit_market\<close> the firm at which \<open>f.debt += repayment\<close>
  raises has already received the credit, the firms before it are settled and the firms
  after it untouched.
\<close>

definition credit_firm_effect :: "market \<Rightarrow> real \<Rightarrow> firm \<Rightarrow> firm \<times> error option" where
  "credit_firm_effect m rate f =
     (if capital f < 0 then
        (let desired_credit = \<bar>capital f\<bar>;
             max_credit = max_leverage m * max (capital f + desired_credit) 1;
             granted_credit = min desired_credit max_credit;
             repayment = granted_credit * (1 + rate);
             f' = f\<lparr>capital := capital f + granted_credit\<rparr>
         in case debt f' of
              None \<Rightarrow> (f', Some AttributeError)
            | Some d \<Rightarrow> (f'\<lparr>debt := Some (d + repayment)\<rparr>, None))
      else (f, None))"

fun credit_loop_effect :: "market \<Rightarrow> real \<Rightarrow> firm list \<Rightarrow> firm list \<times> error option" where
  "credit_loop_effect m rate [] = ([], None)"
| "credit_loop_effect m rate (f # fs) =
     (case credit_firm_effect m rate f of
        (f', Some e) \<Rightarrow> (f' # fs, Some e)
      | (f', None) \<Rightarrow>
          (case credit_loop_effect m rate fs of (fs', r) \<Rightarrow> (f' # fs', r)))"

text \<open>
  The calls that touch a firm: its own \<open>step\<close>, \<open>produce\<close> and \<open>post_market_step\<close>
  (on the firm at a position of the list; a position outside the list is IndexError) and
  the three market clearings over the whole population.
\<close>

datatype call =
    StepFirm nat market_conditions
  | ProduceFirm nat
  | PostMarketFirm nat
  | ClearLabor "nat list"
  | ClearGoods
  | ClearCredit government

text \<open>
  One call on the households and firms: the population after the call, and the exception
  if it raised. \<open>step\<close>, \<open>post_market_step\<close> and \<open>clear_labor_market\<close> raise before
  their first assignment (the labour market at \<open>sum(f.desired_labor ...)\<close> or at
  \<open>employed / labor_supply\<close>, both above the shuffle), so they leave the population as
  it was; the credit market leaves what \<open>credit_loop_effect\<close> says.
\<close>

fun apply_call ::
  "market \<Rightarrow> call \<Rightarrow> household list \<times> firm list
     \<Rightarrow> (household list \<times> firm list) \<times> error option" where
  "apply_call m (StepFirm i mc) (hs, fs) =
     (if i < length fs
      then (case firm_step mc (fs ! i) of
              Inl e \<Rightarrow> ((hs, fs), Some e)
            | Inr f \<Rightarrow> ((hs, fs[i := f]), None))
      else ((hs, fs), Some IndexError))"
| "apply_call m (ProduceFirm i) (hs, fs) =
     (if i < length fs then ((hs, fs[i := produce (fs ! i)]), None)
      else ((hs, fs), Some IndexError))"
| "apply_call m (PostMarketFirm i) (hs, fs) =
     (if i < length fs
      then (case post_market_step (fs ! i) of
              Inl e \<Rightarrow> ((hs, fs), Some e)
            | Inr f \<Rightarrow> ((hs, fs[i := f]), None))
      else ((hs, fs), Some IndexError))"
| "apply_call m (ClearLabor perm) (hs, fs) =
     (case clear_labor_market m perm hs fs of
        Inl e \<Rightarrow> ((hs, fs), Some e)
      | Inr (hs', fs', wage, rate) \<Rightarrow> ((hs', fs'), None))"
| "apply_call m ClearGoods (hs, fs) = ((hs, fst (clear_goods_market m hs fs)), None)"
| "apply_call m (ClearCredit g) (hs, fs) =
     (case current_interest_rate g of
        None \<Rightarrow> ((hs, fs), Some AttributeError)
      | Some rate \<Rightarrow> (case credit_loop_effect m rate fs of (fs', r) \<Rightarrow> ((hs, fs'), r)))"

text \<open>
  A sequence of calls, stopped by the first exception: the population it leaves, and that
  exception if there was one.
\<close>

fun run_calls ::
  "market \<Rightarrow> call list \<Rightarrow> household list \<times> firm list
     \<Rightarrow> (household list \<times> firm list) \<times> error option" where
  "run_calls m [] s = (s, None)"
| "run_calls m (c # cs) s =
     (case apply_call m c s of
        (s', Some e) \<Rightarrow> (s', Some e)
      | (s', None) \<Rightarrow> run_calls m cs s')"

subsection \<open>simulation/economics/inequality.py\<close>

text \<open>
  numpy computes \<open>calculate_wealth_share\<close> in IEEE binary64, and the claim about it turns
  on the rounding, so the function is written over an \<open>arithmetic\<close>: \<open>rnd\<close> is the
  rounding of the exact result of one operation to a representable number, \<open>asum\<close> is the
  sum of an array (\<open>ndarray.sum\<close>). The operations of the function that round are the
  conversion \<open>np.array(wealths, dtype=np.float64)\<close>, the product
  \<open>len(wealths) * top_percentile\<close>, the two sums and the quotient; comparisons,
  \<open>np.ceil\<close>, \<open>int\<close>, \<open>max\<close>, the sort and \<open>np.clip\<close> between 0 and 1 are exact.
\<close>

record arithmetic =
  rnd :: "real \<Rightarrow> real"
  asum :: "real list \<Rightarrow> real"

text \<open>
  The arithmetic of the real numbers, which is the one the rest of this embedding computes
  in: nothing is rounded.
\<close>

definition exact :: arithmetic where
  "exact = \<lparr>rnd = (\<lambda>x. x), asum = sum_list\<rparr>"

text \<open>
  Binary64 with the default rounding, to nearest with ties to even. A non-zero \<open>x\<close> with
  \<open>2^e \<le> \<bar>x\<bar> < 2^(e+1)\<close> is rounded to a multiple of \<open>2^(e-52)\<close> (53 significant
  bits); below \<open>2^(-1022)\<close> the spacing stays \<open>2^(-1074)\<close> (subnormal numbers). The
  largest finite double is about \<open>1.8e308\<close>; overflow to \<open>inf\<close>, and \<open>nan\<close>, are not
  described, the wealths and their sums being taken within the finite range.
\<close>

definition round_half_even :: "real \<Rightarrow> int" where
  "round_half_even x =
     (let f = \<lfloor>x\<rfloor>; r = x - of_int f in
        if r < 1/2 then f else if 1/2 < r then f + 1 else if even f then f else f + 1)"

definition double_exponent :: "real \<Rightarrow> int" where
  "double_exponent x = max \<lfloor>log 2 \<bar>x\<bar>\<rfloor> (- 1022)"

definition to_double :: "real \<Rightarrow> real" where
  "to_double x =
     (if x = 0 then 0
      else let u = 2 powr (of_int (double_exponent x) - 52)
           in of_int (round_half_even (x / u)) * u)"

text \<open>
  \<open>ndarray.sum\<close> of an array of fewer than eight doubles: numpy starts from 0 and adds the
  entries from left to right, rounding after each addition. (From eight entries on numpy
  adds in eight interleaved partial sums, and above 128 entries pairwise, so the order of
  the additions differs; \<open>seq_sum\<close> is used below on lists of three and of four entries
  only.)
\<close>

definition seq_sum :: "real list \<Rightarrow> real" where
  "seq_sum xs = foldl (\<lambda>s x. to_double (s + x)) 0 xs"

definition doubles :: arithmetic where
  "doubles = \<lparr>rnd = to_double, asum = seq_sum\<rparr>"

text \<open>
  \<open>InequalityMetrics.calculate_wealth_share(wealths, top_percentile=0.01)\<close>.
  \<open>np.sort(wealths)[::-1]\<close> is the ascending sort reversed, and \<open>k\<close> is at least 1, so
  the slice \<open>[:k]\<close> is a prefix. \<open>top_percentile\<close> is a float already.
\<close>

definition calculate_wealth_share :: "arithmetic \<Rightarrow> real list \<Rightarrow> real \<Rightarrow> real" where
  "calculate_wealth_share A ws top_percentile =
     (let wealths = map (rnd A) ws in
      if length wealths = 0 then 0
      else let total_wealth = asum A wealths in
        if total_wealth \<le> 0 then 0
        else let k = max 1 \<lceil>rnd A (real (length wealths) * top_percentile)\<rceil>;
                 sorted_wealths = rev (sort wealths);
                 top_wealth = asum A (take (nat k) sorted_wealths);
                 share = rnd A (top_wealth / total_wealth)
             in np_clip share 0 1)"

text \<open>
  \<open>InequalityMetrics.calculate_gini(incomes)\<close>. The index runs from 1 to \<open>n\<close> over the
  ascending sort. numpy divides by a zero sum without raising: a positive numerator gives
  \<open>inf\<close>, a negative one \<open>-inf\<close>, and \<open>np.clip\<close> maps them to 1 and 0. (A zero
  numerator over a zero sum would be \<open>nan\<close>; the numerator of a sorted list that is not
  constant is positive, so with the all-zero list returned early that case does not arise.)
\<close>

definition calculate_gini :: "real list \<Rightarrow> real" where
  "calculate_gini incomes =
     (if length incomes = 0 then 0
      else if list_all (\<lambda>x. x = 0) incomes then 0
      else let xs = sort incomes;
               n = length xs;
               numer = sum_list (map2 (\<lambda>i x. (2 * real i - real n - 1) * x) [1..<n + 1] xs);
               denom = real n * sum_list xs
           in if denom = 0 then (if 0 < numer then 1 else 0)
              else np_clip (numer / denom) 0 1)"

subsection \<open>simulation/networks/social_graph.py\<close>

text \<open>
  The graph is read through \<open>graph.nodes\<close> and \<open>graph.neighbors\<close>; the nodes of a
  networkx graph are pairwise distinct. \<open>household_states\<close> maps an agent id to its
  unrest. The Gaussian draw a node receives is \<open>noise_draw\<close> at that node.
\<close>

record social_graph =
  graph_nodes :: "int list"
  graph_neighbors :: "int \<Rightarrow> int list"
  influence_strength :: real
  decay :: real

text \<open>\<open>SocialGraph._clip\<close>.\<close>

definition clip_unrest :: "real \<Rightarrow> real" where
  "clip_unrest x = np_clip x 0 1"

text \<open>\<open>[household_states[n]["unrest"] for n in neighbors]\<close>: a missing key raises KeyError.\<close>

fun lookup_unrest :: "(int \<rightharpoonup> real) \<Rightarrow> int list \<Rightarrow> error + real list" where
  "lookup_unrest st [] = Inr []"
| "lookup_unrest st (n # ns) =
     (case st n of
        None \<Rightarrow> Inl KeyError
      | Some u \<Rightarrow> (case lookup_unrest st ns of Inl e \<Rightarrow> Inl e | Inr us \<Rightarrow> Inr (u # us)))"

text \<open>
  The body of the loop of \<open>spread_influence\<close> for one node: the value it stores in
  \<open>new_unrest\<close>. It reads \<open>household_states\<close>, the argument, and never \<open>new_unrest\<close>.
\<close>

definition node_unrest ::
  "social_graph \<Rightarrow> (int \<rightharpoonup> real) \<Rightarrow> (int \<Rightarrow> real) \<Rightarrow> int \<Rightarrow> error + real" where
  "node_unrest g household_states noise_draw agent_id =
     (let neighbors = graph_neighbors g agent_id in
      case household_states agent_id of
        None \<Rightarrow> Inl KeyError
      | Some own_unrest \<Rightarrow>
          if neighbors = [] then Inr (clip_unrest own_unrest)
          else (case lookup_unrest household_states neighbors of
              Inl e \<Rightarrow> Inl e
            | Inr us \<Rightarrow>
                (let neighbor_unrest = sum_list us / real (length us);
                     propagated = own_unrest
                       + influence_strength g * (neighbor_unrest - own_unrest)
                       - decay g * own_unrest
                       + noise_draw agent_id
                 in Inr (clip_unrest propagated))))"

text \<open>The loop over \<open>self.graph.nodes\<close>, with the dictionary \<open>new_unrest\<close> it fills.\<close>

fun spread_loop ::
  "social_graph \<Rightarrow> (int \<rightharpoonup> real) \<Rightarrow> (int \<Rightarrow> real) \<Rightarrow> int list \<Rightarrow> (int \<rightharpoonup> real)
     \<Rightarrow> error + (int \<rightharpoonup> real)" where
  "spread_loop g household_states noise_draw [] new_unrest = Inr new_unrest"
| "spread_loop g household_states noise_draw (agent_id # rest) new_unrest =
     (case node_unrest g household_states noise_draw agent_id of
        Inl e \<Rightarrow> Inl e
      | Inr v \<Rightarrow> spread_loop g household_states noise_draw rest (new_unrest(agent_id \<mapsto> v)))"

text \<open>\<open>SocialGraph.spread_influence(household_states)\<close>.\<close>

definition spread_influence ::
  "social_graph \<Rightarrow> (int \<rightharpoonup> real) \<Rightarrow> (int \<Rightarrow> real) \<Rightarrow> error + (int \<rightharpoonup> real)" where
  "spread_influence g household_states noise_draw =
     spread_loop g household_states noise_draw (graph_nodes g) Map.empty"

subsection \<open>simulation/shocks: the shock manager\<close>

record shock =
  shock_type :: string
  severity :: real
  duration :: int
  start_step :: int

text \<open>\<open>ShockManager\<close>: the probability table, in the order of the dictionary, and the active shocks.\<close>

record shock_manager =
  shock_probs :: "(string \<times> real) list"
  active_shocks :: "shock list"

text \<open>\<open>ShockManager.add_shock(shock_type, severity)\<close>.\<close>

definition add_shock :: "string \<Rightarrow> real \<Rightarrow> shock_manager \<Rightarrow> shock_manager" where
  "add_shock t sev sm =
     sm\<lparr>active_shocks := active_shocks sm @
          [\<lparr> shock_type = t, severity = sev,
             duration = (if t \<noteq> ''permanent'' then 10 else 1000), start_step = 0 \<rparr>]\<rparr>"

text \<open>
  \<open>ShockManager._apply_shock(shock, state, households, firms)\<close>, on the economic state,
  the households and the firms. (The assignment to \<open>econ.regime_stability\<close> of the
  political coup creates an attribute nothing else reads.)
\<close>

definition apply_shock ::
  "shock \<Rightarrow> economic_state \<times> household list \<times> firm list
     \<Rightarrow> economic_state \<times> household list \<times> firm list" where
  "apply_shock sh w =
     (case w of (econ, hs, fs) \<Rightarrow>
      if shock_type sh = ''pandemic'' then
        (econ\<lparr>unemployment := unemployment econ + 5 * severity sh\<rparr>,
         map (\<lambda>h. h\<lparr>consumption := consumption h * (1 - 2 * severity sh)\<rparr>) hs,
         fs)
      else if shock_type sh = ''financial_crash'' then
        (econ\<lparr>unemployment := unemployment econ + 40 * severity sh\<rparr>,
         map (\<lambda>h. h\<lparr>wealth := wealth h * (1 - 7 * severity sh)\<rparr>) hs,
         map (\<lambda>f. f\<lparr>capital := capital f * (1 - 8 * severity sh)\<rparr>) fs)
      else if shock_type sh = ''political_coup'' then
        (econ,
         map (\<lambda>h. h\<lparr>unrest := np_clip (unrest h + 20 * severity sh) 0 1\<rparr>) hs,
         fs)
      else if shock_type sh = ''supply_chain_collapse'' then
        (econ\<lparr>inflation := inflation econ + 50 * severity sh\<rparr>,
         hs,
         map (\<lambda>f. f\<lparr>productivity := productivity f * (1 - 6 * severity sh)\<rparr>) fs)
      else if shock_type sh = ''cyber_attack'' then
        (econ,
         map (\<lambda>h. h\<lparr>unrest := np_clip (unrest h + 3 * severity sh) 0 1\<rparr>) hs,
         map (\<lambda>f. f\<lparr>capital := capital f * (1 - (1/10) * severity sh)\<rparr>) fs)
      else if shock_type sh = ''climate_catastrophe'' then
        (econ\<lparr>inflation := inflation econ + 20 * severity sh,
               unemployment := unemployment econ + 10 * severity sh\<rparr>,
         map (\<lambda>h. h\<lparr>wealth := wealth h * (1 - 2 * severity sh)\<rparr>) hs,
         map (\<lambda>f. f\<lparr>productivity := productivity f * (1 - 4 * severity sh)\<rparr>) fs)
      else (econ, hs, fs))"

text \<open>
  The first loop of \<open>maybe_trigger\<close>: entry \<open>k\<close> of the table triggers when the uniform
  draw \<open>random_draw k\<close> is below its probability.
\<close>

fun trigger_loop ::
  "(nat \<Rightarrow> real) \<Rightarrow> nat \<Rightarrow> (string \<times> real) list \<Rightarrow> shock_manager \<Rightarrow> shock_manager" where
  "trigger_loop random_draw k [] sm = sm"
| "trigger_loop random_draw k ((t, prob) # rest) sm =
     trigger_loop random_draw (Suc k) rest
       (if random_draw k < prob then add_shock t (1/2) sm else sm)"

text \<open>The second loop: apply each active shock, age it, and keep it while it has time left.\<close>

fun decay_loop ::
  "shock list \<Rightarrow> economic_state \<times> household list \<times> firm list \<Rightarrow> shock list
     \<Rightarrow> (economic_state \<times> household list \<times> firm list) \<times> shock list" where
  "decay_loop [] w alive_shocks = (w, alive_shocks)"
| "decay_loop (sh # rest) w alive_shocks =
     (let w' = apply_shock sh w;
          sh' = sh\<lparr>duration := duration sh - 1\<rparr>
      in decay_loop rest w' (if duration sh' > 0 then alive_shocks @ [sh'] else alive_shocks))"

text \<open>\<open>ShockManager.maybe_trigger(state, households, firms)\<close>.\<close>

definition maybe_trigger ::
  "(nat \<Rightarrow> real) \<Rightarrow> shock_manager \<Rightarrow> economic_state \<times> household list \<times> firm list
     \<Rightarrow> shock_manager \<times> (economic_state \<times> household list \<times> firm list)" where
  "maybe_trigger random_draw sm w =
     (let sm1 = trigger_loop random_draw 0 (shock_probs sm) sm;
          (w', alive_shocks) = decay_loop (active_shocks sm1) w []
      in (sm1\<lparr>active_shocks := alive_shocks\<rparr>, w'))"

subsection \<open>simulation/agents/households.py: the rule-based action\<close>

text \<open>\<open>SOCIAL_CLASS_PARAMS[social_class]["propensity_to_protest"]\<close>.\<close>

definition propensity_to_protest :: "string \<Rightarrow> error + real" where
  "propensity_to_protest c =
     (if c = ''poor'' then Inr (5/10)
      else if c = ''working'' then Inr (3/10)
      else if c = ''middle'' then Inr (2/10)
      else if c = ''elite'' then Inr (5/100)
      else Inl KeyError)"

text \<open>
  \<open>HouseholdAgent.act(observation)\<close> without a policy network; \<open>observation[2]\<close> is the
  average unrest of the state.
\<close>

definition household_act :: "real \<Rightarrow> household \<Rightarrow> error + household" where
  "household_act observed_unrest h =
     (case propensity_to_protest (social_class h) of
        Inl e \<Rightarrow> Inl e
      | Inr base \<Rightarrow>
          (let consumption_pct = np_clip (5/10 + (2/10) * (1 - base)) 0 1;
               savings_pct = 1 - consumption_pct;
               protest_pct = np_clip (base * observed_unrest) 0 1
           in Inr (h\<lparr>consumption := wealth h * consumption_pct,
                      savings := wealth h * savings_pct,
                      unrest := protest_pct,
                      wealth := wealth h * savings_pct\<rparr>)))"

subsection \<open>simulation/state.py and simulation/env.py: the orchestrator\<close>

text \<open>\<open>EconomicState.update_growth()\<close> and \<open>EconomicState.apply_policy(action)\<close>.\<close>

definition update_growth :: "economic_state \<Rightarrow> economic_state" where
  "update_growth econ =
     (econ\<lparr>gdp_growth := (if gdp_last econ > 0
                            then (gdp econ - gdp_last econ) / gdp_last econ else 0),
            gdp_last := gdp econ\<rparr>)"

record action =
  act_interest_rate :: real
  act_tax_rate :: real
  act_welfare_spending :: real
  act_capital_controls :: real

definition apply_policy :: "action \<Rightarrow> economic_state \<Rightarrow> economic_state" where
  "apply_policy a econ =
     econ\<lparr>interest_rate := act_interest_rate a,
          tax_rate := act_tax_rate a,
          welfare_spending := act_welfare_spending a,
          capital_controls := act_capital_controls a\<rparr>"

text \<open>The defaults of the dataclass \<open>EconomicState\<close>.\<close>

definition EconomicState_init :: economic_state where
  "EconomicState_init =
     \<lparr> gdp = 0, gdp_last = 0, gdp_growth = 0, inflation = 0, unemployment = 0,
       interest_rate = 5/100, tax_rate = 2/10, gini_coeff = 0, wage_index = 1,
       price_index = 1, avg_unrest = 0, top1_wealth_share = 0, welfare_spending = 0,
       capital_controls = 0, regime = ''stable'' \<rparr>"

text \<open>\<open>GlobalState()\<close>: its \<open>households\<close> dictionary is empty, and the orchestrator never fills it.\<close>

definition GlobalState_init :: global_state where
  "GlobalState_init = \<lparr> economics = EconomicState_init, gs_households = [] \<rparr>"

text \<open>The attributes of \<open>BlackSwanEnv\<close>.\<close>

record env =
  env_state :: global_state
  env_timestep :: int
  env_max_steps :: int
  env_government :: government
  env_households :: "household list"
  env_firms :: "firm list"
  env_market :: market
  env_social_graph :: social_graph
  env_shocks :: shock_manager

text \<open>
  The random outcomes one call of \<open>step\<close> consumes: the uniform draws of the shock
  triggers, the Gaussian draw of each node in the diffusion, the outcome of the shuffle
  and the standard normal draw of the inflation nudge.
\<close>

record draws =
  shock_draws :: "nat \<Rightarrow> real"
  noise_draws :: "int \<Rightarrow> real"
  shuffle_perm :: "nat list"
  inflation_draw :: real

text \<open>\<open>for f in self.firms: f.step(market_conditions)\<close>.\<close>

fun step_firms :: "market_conditions \<Rightarrow> firm list \<Rightarrow> error + firm list" where
  "step_firms mc [] = Inr []"
| "step_firms mc (f # fs) =
     (case firm_step mc f of
        Inl e \<Rightarrow> Inl e
      | Inr f' \<Rightarrow> (case step_firms mc fs of Inl e \<Rightarrow> Inl e | Inr fs' \<Rightarrow> Inr (f' # fs')))"

text \<open>
  The loop of part 4: each household acts on its observation and its unrest is recorded
  under its id in \<open>household_states\<close>.
\<close>

fun act_loop ::
  "real \<Rightarrow> household list \<Rightarrow> (int \<rightharpoonup> real) \<Rightarrow> error + (household list \<times> (int \<rightharpoonup> real))" where
  "act_loop observed_unrest [] household_states = Inr ([], household_states)"
| "act_loop observed_unrest (h # hs) household_states =
     (case household_act observed_unrest h of
        Inl e \<Rightarrow> Inl e
      | Inr h' \<Rightarrow>
          (case act_loop observed_unrest hs (household_states(hid h' \<mapsto> unrest h')) of
             Inl e \<Rightarrow> Inl e
           | Inr (hs', st) \<Rightarrow> Inr (h' # hs', st)))"

text \<open>\<open>for h in self.households: h.unrest = updated_unrest[h.id]\<close>.\<close>

fun assign_unrest :: "(int \<rightharpoonup> real) \<Rightarrow> household list \<Rightarrow> error + household list" where
  "assign_unrest updated_unrest [] = Inr []"
| "assign_unrest updated_unrest (h # hs) =
     (case updated_unrest (hid h) of
        None \<Rightarrow> Inl KeyError
      | Some u \<Rightarrow>
          (case assign_unrest updated_unrest hs of
             Inl e \<Rightarrow> Inl e
           | Inr hs' \<Rightarrow> Inr (h\<lparr>unrest := u\<rparr> # hs')))"

text \<open>\<open>for f in self.firms: f.post_market_step()\<close>.\<close>

fun settle_firms :: "firm list \<Rightarrow> error + firm list" where
  "settle_firms [] = Inr []"
| "settle_firms (f # fs) =
     (case post_market_step f of
        Inl e \<Rightarrow> Inl e
      | Inr f' \<Rightarrow> (case settle_firms fs of Inl e \<Rightarrow> Inl e | Inr fs' \<Rightarrow> Inr (f' # fs')))"

text \<open>\<open>sum(f.revenue for f in self.firms)\<close>.\<close>

fun revenue_sum :: "firm list \<Rightarrow> error + real" where
  "revenue_sum [] = Inr 0"
| "revenue_sum (f # fs) =
     (case revenue f of
        None \<Rightarrow> Inl AttributeError
      | Some r \<Rightarrow> (case revenue_sum fs of Inl e \<Rightarrow> Inl e | Inr s \<Rightarrow> Inr (r + s)))"

text \<open>
  \<open>np.mean\<close> of a list. (Of an empty list numpy returns \<open>nan\<close>; the step reaches the
  mean only with at least one household, the labour market having raised otherwise.)
\<close>

definition np_mean :: "real list \<Rightarrow> real" where
  "np_mean xs = sum_list xs / real (length xs)"

text \<open>
  \<open>BlackSwanEnv._update_macros(unemployment)\<close>, on the economic state, in the arithmetic
  of the real numbers like the rest of the step.
\<close>

definition update_macros ::
  "real \<Rightarrow> real \<Rightarrow> household list \<Rightarrow> firm list \<Rightarrow> economic_state \<Rightarrow> error + economic_state" where
  "update_macros randn unemployment_rate hs fs econ =
     (case revenue_sum fs of
        Inl e \<Rightarrow> Inl e
      | Inr total_revenue \<Rightarrow>
          (let wealths = map wealth hs
           in Inr (update_growth
                (econ\<lparr>gdp := total_revenue,
                       inflation := np_clip (inflation econ + (1/100) * randn) 0 1,
                       unemployment := unemployment_rate,
                       gini_coeff := calculate_gini wealths,
                       top1_wealth_share := calculate_wealth_share exact wealths (1/100),
                       avg_unrest := np_mean (map unrest hs)\<rparr>))))"

text \<open>\<open>BlackSwanEnv._check_collapse()\<close>: the economic state and the returned flag.\<close>

definition check_collapse :: "economic_state \<Rightarrow> economic_state \<times> bool" where
  "check_collapse econ =
     (if avg_unrest econ > 7/10 \<and> unemployment econ > 15/100
      then (econ\<lparr>regime := ''collapsed''\<rparr>, True)
      else if gdp econ < 1/1000
      then (econ\<lparr>regime := ''collapsed''\<rparr>, True)
      else (econ, False))"

text \<open>
  Parts 1 to 5 of \<open>BlackSwanEnv.step(action)\<close>: shocks, the government's levers, the
  firms' decisions, the households' actions and the diffusion of unrest.
\<close>

definition step_decide :: "draws \<Rightarrow> action \<Rightarrow> env \<Rightarrow> error + env" where
  "step_decide dr a e =
     (let (sm, (econ1, hs1, fs1)) =
            maybe_trigger (shock_draws dr) (env_shocks e)
              (economics (env_state e), env_households e, env_firms e);
          econ2 = apply_policy a econ1;
          gov = (env_government e)\<lparr>current_interest_rate := Some (interest_rate econ2)\<rparr>;
          market_conditions =
            \<lparr> mc_demand = gdp econ2,
              mc_wage = base_wage (env_market e) * wage_index econ2,
              mc_inflation = inflation econ2,
              mc_shock_multiplier = None \<rparr>
      in case step_firms market_conditions fs1 of
           Inl er \<Rightarrow> Inl er
         | Inr fs2 \<Rightarrow>
             (case act_loop (avg_unrest econ2) hs1 Map.empty of
                Inl er \<Rightarrow> Inl er
              | Inr (hs2, household_states) \<Rightarrow>
                  (case spread_influence (env_social_graph e) household_states (noise_draws dr) of
                     Inl er \<Rightarrow> Inl er
                   | Inr updated_unrest \<Rightarrow>
                       (case assign_unrest updated_unrest hs2 of
                          Inl er \<Rightarrow> Inl er
                        | Inr hs3 \<Rightarrow>
                            Inr (e\<lparr>env_state := (env_state e)\<lparr>economics := econ2\<rparr>,
                                   env_timestep := env_timestep e + 1,
                                   env_government := gov,
                                   env_households := hs3,
                                   env_firms := fs2,
                                   env_shocks := sm\<rparr>)))))"

text \<open>
  Part 6: the three markets and the settlement of the firms. The result carries the
  unemployment rate the labour market returned.
\<close>

definition step_markets :: "draws \<Rightarrow> env \<Rightarrow> error + (env \<times> real)" where
  "step_markets dr e =
     (case clear_labor_market (env_market e) (shuffle_perm dr) (env_households e) (env_firms e) of
        Inl er \<Rightarrow> Inl er
      | Inr (hs, fs1, wage, unemployment_rate) \<Rightarrow>
          (let fs2 = map produce fs1;
               (fs3, price_multiplier) = clear_goods_market (env_market e) hs fs2
           in case clear_credit_market (env_market e) fs3 (env_government e) of
                Inl er \<Rightarrow> Inl er
              | Inr (fs4, rate) \<Rightarrow>
                  (case settle_firms fs4 of
                     Inl er \<Rightarrow> Inl er
                   | Inr fs5 \<Rightarrow>
                       Inr (e\<lparr>env_households := hs, env_firms := fs5\<rparr>, unemployment_rate))))"

text \<open>
  Parts 7 to 9: the macro aggregates, the reward and the termination flags. The value is
  the environment after the call with the returned reward, \<open>terminated\<close> and
  \<open>truncated\<close>; the returned observation is \<open>get_obs\<close> of that environment.
\<close>

definition step_conclude :: "draws \<Rightarrow> real \<Rightarrow> env \<Rightarrow> error + (env \<times> real \<times> bool \<times> bool)" where
  "step_conclude dr unemployment_rate e =
     (case update_macros (inflation_draw dr) unemployment_rate (env_households e) (env_firms e)
             (economics (env_state e)) of
        Inl er \<Rightarrow> Inl er
      | Inr econ \<Rightarrow>
          (case government_compute_reward (env_government e)
                  ((env_state e)\<lparr>economics := econ\<rparr>) of
             Inl er \<Rightarrow> Inl er
           | Inr (reward, gov) \<Rightarrow>
               (let (econ', terminated) = check_collapse econ;
                    truncated = (env_timestep e \<ge> env_max_steps e)
                in Inr (e\<lparr>env_state := (env_state e)\<lparr>economics := econ'\<rparr>,
                          env_government := gov\<rparr>,
                        reward, terminated, truncated))))"

text \<open>\<open>BlackSwanEnv.step(action)\<close>.\<close>

definition env_step :: "draws \<Rightarrow> action \<Rightarrow> env \<Rightarrow> error + (env \<times> real \<times> bool \<times> bool)" where
  "env_step dr a e =
     (case step_decide dr a e of
        Inl er \<Rightarrow> Inl er
      | Inr e1 \<Rightarrow>
          (case step_markets dr e1 of
             Inl er \<Rightarrow> Inl er
           | Inr (e2, unemployment_rate) \<Rightarrow> step_conclude dr unemployment_rate e2))"

text \<open>\<open>BlackSwanEnv._get_obs()\<close>.\<close>

definition get_obs :: "env \<Rightarrow> real list" where
  "get_obs e =
     (let econ = economics (env_state e)
      in [gdp econ, inflation econ, unemployment econ, gini_coeff econ, avg_unrest econ,
          top1_wealth_share econ, interest_rate econ, tax_rate econ, welfare_spending econ,
          capital_controls econ])"

text \<open>\<open>BlackSwanEnv.reset()\<close>: a new state and the kick-start values; the agents stay.\<close>

definition env_reset :: "env \<Rightarrow> env" where
  "env_reset e =
     e\<lparr>env_state := GlobalState_init\<lparr>economics :=
           EconomicState_init\<lparr>gdp := 10000, gdp_last := 10000, wage_index := 1,
             price_index := 1\<rparr>\<rparr>,
       env_timestep := 0,
       env_government := (env_government e)\<lparr>prev_gdp := Some 10000\<rparr>\<rparr>"

subsection \<open>simulation/env.py: construction\<close>

text \<open>
  The configuration dictionary, read with \<open>config.get(key, default)\<close>: a key that is
  absent is \<open>None\<close>.
\<close>

record config =
  cfg_max_steps :: "int option"
  cfg_num_households :: "nat option"
  cfg_num_firms :: "nat option"
  cfg_base_wage :: "real option"
  cfg_price_adjustment :: "real option"
  cfg_wage_adjustment :: "real option"
  cfg_base_interest_rate :: "real option"
  cfg_max_leverage :: "real option"
  cfg_avg_degree :: "nat option"
  cfg_influence_strength :: "real option"
  cfg_unrest_decay :: "real option"
  cfg_shock_probs :: "(string \<times> real) list option"

definition config_get :: "'a option \<Rightarrow> 'a \<Rightarrow> 'a" where
  "config_get v d = (case v of None \<Rightarrow> d | Some x \<Rightarrow> x)"

text \<open>\<open>MarketMechanism.__init__(config)\<close>.\<close>

definition MarketMechanism_init :: "config \<Rightarrow> market" where
  "MarketMechanism_init c =
     \<lparr> base_wage = config_get (cfg_base_wage c) 50,
       price_adjustment = config_get (cfg_price_adjustment c) (1/10),
       wage_adjustment = config_get (cfg_wage_adjustment c) (1/10),
       base_interest_rate = config_get (cfg_base_interest_rate c) (5/100),
       max_leverage = config_get (cfg_max_leverage c) 3 \<rparr>"

text \<open>\<open>ShockManager.__init__(config)\<close>.\<close>

definition ShockManager_init :: "config \<Rightarrow> shock_manager" where
  "ShockManager_init c =
     \<lparr> shock_probs = config_get (cfg_shock_probs c)
         [(''pandemic'', 1/100), (''financial_crash'', 2/100), (''supply_chain_collapse'', 5/100)],
       active_shocks = [] \<rparr>"

text \<open>\<open>GovernmentAgent.__init__(config)\<close>.\<close>

definition GovernmentAgent_init :: government where
  "GovernmentAgent_init = \<lparr> prev_gdp = None, current_interest_rate = None \<rparr>"

text \<open>
  \<open>HouseholdAgent.__init__(id, social_class, config)\<close>; \<open>wealth_draw\<close> is the outcome of
  \<open>np.random.normal(income_mean, income_std)\<close>.
\<close>

definition HouseholdAgent_init :: "int \<Rightarrow> string \<Rightarrow> real \<Rightarrow> error + household" where
  "HouseholdAgent_init i c wealth_draw =
     (case propensity_to_protest c of
        Inl e \<Rightarrow> Inl e
      | Inr p \<Rightarrow>
          Inr \<lparr> hid = i, social_class = c, wealth = wealth_draw, consumption = 0,
                savings = 0, unrest = 0, employed = None \<rparr>)"

text \<open>
  \<open>SocialGraph.__init__(num_agents, config)\<close>. The graph comes from
  \<open>nx.barabasi_albert_graph(n, m)\<close>, which raises unless \<open>1 \<le> m < n\<close> and otherwise
  returns a random graph on the nodes \<open>0, ..., n - 1\<close>; its adjacency is the parameter
  \<open>adjacency\<close>.
\<close>

definition SocialGraph_init :: "nat \<Rightarrow> config \<Rightarrow> (int \<Rightarrow> int list) \<Rightarrow> error + social_graph" where
  "SocialGraph_init n c adjacency =
     (let m = config_get (cfg_avg_degree c) 3
      in if m < 1 \<or> m \<ge> n then Inl NetworkXError
         else Inr \<lparr> graph_nodes = map int [0..<n],
                    graph_neighbors = adjacency,
                    influence_strength = config_get (cfg_influence_strength c) (3/10),
                    decay = config_get (cfg_unrest_decay c) (5/100) \<rparr>)"

text \<open>The two list comprehensions of \<open>BlackSwanEnv.__init__\<close>, over \<open>range(n)\<close>.\<close>

fun make_households :: "(nat \<Rightarrow> string) \<Rightarrow> (nat \<Rightarrow> real) \<Rightarrow> nat list \<Rightarrow> error + household list" where
  "make_households class_draw wealth_draw [] = Inr []"
| "make_households class_draw wealth_draw (i # is) =
     (case HouseholdAgent_init (int i) (class_draw i) (wealth_draw i) of
        Inl e \<Rightarrow> Inl e
      | Inr h \<Rightarrow>
          (case make_households class_draw wealth_draw is of
             Inl e \<Rightarrow> Inl e
           | Inr hs \<Rightarrow> Inr (h # hs)))"

fun make_firms :: "(nat \<Rightarrow> string) \<Rightarrow> nat list \<Rightarrow> error + firm list" where
  "make_firms archetype_draw [] = Inr []"
| "make_firms archetype_draw (i # is) =
     (case FirmAgent_init (int i) (archetype_draw i) of
        Inl e \<Rightarrow> Inl e
      | Inr f \<Rightarrow>
          (case make_firms archetype_draw is of
             Inl e \<Rightarrow> Inl e
           | Inr fs \<Rightarrow> Inr (f # fs)))"

text \<open>
  \<open>BlackSwanEnv.__init__(config)\<close>. The random outcomes are the class of each household,
  its initial wealth, the archetype of each firm and the adjacency of the graph.
\<close>

definition BlackSwanEnv_init ::
  "config \<Rightarrow> (nat \<Rightarrow> string) \<Rightarrow> (nat \<Rightarrow> real) \<Rightarrow> (nat \<Rightarrow> string) \<Rightarrow> (int \<Rightarrow> int list)
     \<Rightarrow> error + env" where
  "BlackSwanEnv_init c class_draw wealth_draw archetype_draw adjacency =
     (case make_households class_draw wealth_draw [0..<config_get (cfg_num_households c) 200] of
        Inl e \<Rightarrow> Inl e
      | Inr hs \<Rightarrow>
          (case make_firms archetype_draw [0..<config_get (cfg_num_firms c) 50] of
             Inl e \<Rightarrow> Inl e
           | Inr fs \<Rightarrow>
               (case SocialGraph_init (length hs) c adjacency of
                  Inl e \<Rightarrow> Inl e
                | Inr g \<Rightarrow>
                    Inr \<lparr> env_state = GlobalState_init,
                          env_timestep = 0,
                          env_max_steps = config_get (cfg_max_steps c) 500,
                          env_government = GovernmentAgent_init,
                          env_households = hs,
                          env_firms = fs,
                          env_market = MarketMechanism_init c,
                          env_social_graph = g,
                          env_shocks = ShockManager_init c \<rparr>)))"

text \<open>
  The environments a program can hold: a constructed one, and what \<open>reset\<close>, a manual
  \<open>add_shock\<close> and a \<open>step\<close> that returns make of one. The shuffle of a step yields a
  permutation of the households.
\<close>

inductive reachable :: "env \<Rightarrow> bool" where
  constructed:
    "BlackSwanEnv_init c class_draw wealth_draw archetype_draw adjacency = Inr e \<Longrightarrow> reachable e"
| after_reset:
    "reachable e \<Longrightarrow> reachable (env_reset e)"
| after_add_shock:
    "reachable e \<Longrightarrow> reachable (e\<lparr>env_shocks := add_shock t sev (env_shocks e)\<rparr>)"
| after_step:
    "reachable e \<Longrightarrow> is_shuffle (shuffle_perm dr) (length (env_households e))
       \<Longrightarrow> env_step dr a e = Inr (e', reward, terminated, truncated) \<Longrightarrow> reachable e'"

section \<open>Predicates and concrete inputs of the statements\<close>

text \<open>The firm and the market conditions of the scenario.\<close>

definition scenario1_firm :: firm where
  "scenario1_firm =
     \<lparr> fid = 0, archetype = ''startup'', capital = 1000, employees = 0, production = 0,
       price = 10, alive = True, productivity = 8/10, pricing_power = 9/10,
       credit_cost = 10/100, desired_labor = None, revenue = None, wage_bill = None,
       debt = None \<rparr>"

definition scenario1_conditions :: market_conditions where
  "scenario1_conditions =
     \<lparr> mc_demand = 100, mc_wage = 50, mc_inflation = 0, mc_shock_multiplier = Some 1 \<rparr>"

text \<open>
  The startup after a financial crash of severity 0.5, which multiplies its capital by
  \<open>1 - 8 * 0.5\<close>, and a government whose interest rate the orchestrator has set.
\<close>

definition deficit_firm :: firm where
  "deficit_firm = scenario1_firm\<lparr>capital := - 3000\<rparr>"

definition central_bank :: government where
  "central_bank = \<lparr> prev_gdp = Some 10000, current_interest_rate = Some (5/100) \<rparr>"

text \<open>A path of three households, 1 - 0 - 2, and their unrest.\<close>

definition path_graph :: social_graph where
  "path_graph =
     \<lparr> graph_nodes = [0, 1, 2],
       graph_neighbors = (\<lambda>a. if a = 0 then [1, 2] else if a = 1 then [0] else if a = 2 then [0] else []),
       influence_strength = 3/10, decay = 5/100 \<rparr>"

definition path_states :: "int \<rightharpoonup> real" where
  "path_states = [0 \<mapsto> 1, 1 \<mapsto> 0, 2 \<mapsto> 1/2]"

text \<open>
  A household that has not acted yet, and the startup with a capital of -60.
\<close>

definition plain_household :: "int \<Rightarrow> household" where
  "plain_household i =
     \<lparr> hid = i, social_class = ''working'', wealth = 100, consumption = 0, savings = 0,
       unrest = 0, employed = None \<rparr>"

definition indebted_firm :: firm where
  "indebted_firm = scenario1_firm\<lparr>capital := - 60\<rparr>"

text \<open>
  A bankrupt firm as its own \<open>step\<close> leaves it: not alive, no employees, no production,
  and a desired labour of 0.
\<close>

definition frozen :: "firm \<Rightarrow> bool" where
  "frozen f = (\<not> alive f \<and> employees f = 0 \<and> production f = 0 \<and> desired_labor f = Some 0)"

text \<open>A market with a base wage of 500, and the conditions a firm sees there.\<close>

definition costly_market :: market where
  "costly_market = default_market\<lparr>base_wage := 500\<rparr>"

definition costly_conditions :: market_conditions where
  "costly_conditions =
     \<lparr> mc_demand = 100, mc_wage = 500, mc_inflation = 0, mc_shock_multiplier = None \<rparr>"

text \<open>
  One tick of the orchestrator's calls on a population with a single firm, in the order
  of parts 3 and 6 of \<open>BlackSwanEnv.step\<close>: the firm's step, the labour market, produce,
  the goods market, the credit market and the settlement.
\<close>

definition tick_calls :: "call list" where
  "tick_calls =
     [StepFirm 0 costly_conditions, ClearLabor [0, 1], ProduceFirm 0, ClearGoods,
      ClearCredit central_bank, PostMarketFirm 0]"

text \<open>
  A bankrupt startup: capital -100, not alive, no employees, no production, and a desired
  labour that is still 2.
\<close>

definition bankrupt_firm :: firm where
  "bankrupt_firm =
     scenario1_firm\<lparr>capital := - 100, alive := False, desired_labor := Some 2,
       revenue := Some 0, wage_bill := Some 1000\<rparr>"

text \<open>A value in [0,1].\<close>

definition unit_interval :: "real \<Rightarrow> bool" where
  "unit_interval x = (0 \<le> x \<and> x \<le> 1)"

text \<open>
  A firm as its \<open>step\<close> leaves it: it has a desired labour, and a negative one only with
  a negative capital.
\<close>

definition planned :: "firm \<Rightarrow> bool" where
  "planned f = (case desired_labor f of None \<Rightarrow> False | Some d \<Rightarrow> 0 \<le> d \<or> capital f < 0)"

text \<open>
  A configuration with two households linked to each other, one firm and a base wage of
  400.
\<close>

definition small_config :: config where
  "small_config =
     \<lparr> cfg_max_steps = None, cfg_num_households = Some 2, cfg_num_firms = Some 1,
       cfg_base_wage = Some 400, cfg_price_adjustment = None, cfg_wage_adjustment = None,
       cfg_base_interest_rate = None, cfg_max_leverage = None, cfg_avg_degree = Some 1,
       cfg_influence_strength = None, cfg_unrest_decay = None, cfg_shock_probs = None \<rparr>"

definition pair_adjacency :: "int \<Rightarrow> int list" where
  "pair_adjacency a = (if a = 0 then [1] else if a = 1 then [0] else [])"

text \<open>
  The environment \<open>BlackSwanEnv(small_config)\<close> builds when both households are drawn
  as working class with wealth 5/4 and the firm as a startup.
\<close>

definition small_env :: env where
  "small_env =
     \<lparr> env_state = GlobalState_init, env_timestep = 0, env_max_steps = 500,
       env_government = GovernmentAgent_init,
       env_households =
         [\<lparr> hid = 0, social_class = ''working'', wealth = 5/4, consumption = 0, savings = 0,
            unrest = 0, employed = None \<rparr>,
          \<lparr> hid = 1, social_class = ''working'', wealth = 5/4, consumption = 0, savings = 0,
            unrest = 0, employed = None \<rparr>],
       env_firms = [scenario1_firm],
       env_market = default_market\<lparr>base_wage := 400\<rparr>,
       env_social_graph =
         \<lparr> graph_nodes = [0, 1], graph_neighbors = pair_adjacency,
           influence_strength = 3/10, decay = 5/100 \<rparr>,
       env_shocks =
         \<lparr> shock_probs = [(''pandemic'', 1/100), (''financial_crash'', 2/100),
                           (''supply_chain_collapse'', 5/100)],
           active_shocks = [] \<rparr> \<rparr>"

text \<open>A step in which no shock triggers, with no noise, and the two households swapped.\<close>

definition calm_draws :: draws where
  "calm_draws =
     \<lparr> shock_draws = (\<lambda>k. 9/10), noise_draws = (\<lambda>a. 0), shuffle_perm = [1, 0],
       inflation_draw = 0 \<rparr>"

definition baseline_action :: action where
  "baseline_action =
     \<lparr> act_interest_rate = 5/100, act_tax_rate = 2/10, act_welfare_spending = 0,
       act_capital_controls = 0 \<rparr>"

text \<open>
  A step in which the second entry of the shock table, the financial crash, triggers and
  no other does.
\<close>

definition crash_draws :: draws where
  "crash_draws =
     \<lparr> shock_draws = (\<lambda>k. if k = 1 then 1/100 else 9/10), noise_draws = (\<lambda>a. 0),
       shuffle_perm = [1, 0], inflation_draw = 0 \<rparr>"

text \<open>The small environment, had its firm been given a debt balance of 0.\<close>

definition indebted_env :: env where
  "indebted_env = small_env\<lparr>env_firms := [scenario1_firm\<lparr>debt := Some 0\<rparr>]\<rparr>"

text \<open>The small environment built without any firm.\<close>

definition firmless_env :: env where
  "firmless_env = small_env\<lparr>env_firms := []\<rparr>"

text \<open>
  The growth as the claim words it, for comparison with \<open>government_gdp_growth\<close>:
  \<open>(current - previous) / previous\<close>, and 0 without a previous GDP.
\<close>

definition claimed_gdp_growth :: "real option \<Rightarrow> real \<Rightarrow> real" where
  "claimed_gdp_growth prev current_gdp =
     (case prev of None \<Rightarrow> 0 | Some p \<Rightarrow> (current_gdp - p) / p)"

text \<open>A state with a GDP of 0.0000006 and a government that remembers 0.0000005.\<close>

definition quiet_state :: global_state where
  "quiet_state =
     \<lparr> economics = EconomicState_init\<lparr>gdp := 6/10000000\<rparr>, gs_households = [] \<rparr>"

definition tiny_memory :: government where
  "tiny_memory = \<lparr> prev_gdp = Some (5/10000000), current_interest_rate = None \<rparr>"

text \<open>
  The total weight and the weighted unrest the loop accumulates over members that have
  both attributes.
\<close>

definition population :: "gs_member list \<Rightarrow> real" where
  "population hs = sum_list (map (\<lambda>h. max (case member_size h of Some s \<Rightarrow> s | None \<Rightarrow> 0) 1) hs)"

definition weighted_unrest_sum :: "gs_member list \<Rightarrow> real" where
  "weighted_unrest_sum hs =
     sum_list (map (\<lambda>h. max (case member_size h of Some s \<Rightarrow> s | None \<Rightarrow> 0) 1
                         * (case unrest_level h of Some u \<Rightarrow> u | None \<Rightarrow> 0)) hs)"

text \<open>
  A state whose household collection has two members with the attributes the government
  reads, of sizes 3 and 1/2.
\<close>

definition tense_state :: global_state where
  "tense_state =
     \<lparr> economics = EconomicState_init\<lparr>gdp := 110, inflation := 1/10, unemployment := 2/10,
                     gini_coeff := 7/10\<rparr>,
       gs_households = [\<lparr> member_size = Some 3, unrest_level = Some 1 \<rparr>,
                        \<lparr> member_size = Some (1/2), unrest_level = Some (6/10) \<rparr>] \<rparr>"

text \<open>
  A rounding that is monotone and leaves 0 and 1 as they are, and a list of numbers whose
  sums, as \<open>calculate_wealth_share\<close> takes them, carry no rounding error: the sum of the
  list in its own order, and the sum of each non-empty prefix of the list in descending
  order.
\<close>

definition monotone_rounding :: "arithmetic \<Rightarrow> bool" where
  "monotone_rounding A \<longleftrightarrow>
     (\<forall>x y. x \<le> y \<longrightarrow> rnd A x \<le> rnd A y) \<and> rnd A 0 = 0 \<and> rnd A 1 = 1"

definition exact_sums :: "arithmetic \<Rightarrow> real list \<Rightarrow> bool" where
  "exact_sums A ws \<longleftrightarrow>
     asum A ws = sum_list ws
     \<and> list_all (\<lambda>k. asum A (take k (rev (sort ws))) = sum_list (take k (rev (sort ws))))
          [1..<length ws + 1]"

section \<open>Scenario 1: a startup facing demand 100 at wage 50\<close>

lemma scenario1_firm_is_fresh: "FirmAgent_init 0 ''startup'' = Inr scenario1_firm"
  by (simp add: FirmAgent_init_def archetype_table_def scenario1_firm_def)

text \<open>
  C1, as the claim states it, fails: \<open>step\<close> multiplies the demand by the productivity
  before dividing by it, so for the startup of the scenario \<open>labor_required\<close> is
  \<open>int(100 * 1 * 0.8 / 0.8) = 100\<close>, not 125.
\<close>

theorem C1_labor_required_not_125:
  "labor_required scenario1_firm scenario1_conditions \<noteq> Inr 125"
  by (simp add: labor_required_def expected_demand_def scenario1_firm_def
      scenario1_conditions_def py_int_def)

text \<open>
  C1, amended: for the startup with capital 1000 facing demand 100, wage 50, inflation 0
  and shock multiplier 1, \<open>step\<close> computes \<open>labor_required = 100\<close> and sets
  \<open>desired_labor = min(100, floor(1000/50) = 20) = 20\<close>; the price stays 10 and
  revenue and wage bill are reset to 0.
\<close>

theorem C1_scenario1_step:
  "labor_required scenario1_firm scenario1_conditions = Inr 100
   \<and> py_int (max_labor_budget scenario1_firm scenario1_conditions) = 20
   \<and> firm_step scenario1_conditions scenario1_firm
       = Inr (scenario1_firm\<lparr>desired_labor := Some 20, price := 10,
                revenue := Some 0, wage_bill := Some 0\<rparr>)"
  by (simp add: firm_step_def labor_required_def expected_demand_def max_labor_budget_def
      scenario1_firm_def scenario1_conditions_def py_int_def)

section \<open>The credit market and a firm in deficit\<close>

text \<open>
  C2 (the code misses it): a startup as \<open>FirmAgent.__init__\<close> builds it, after a
  financial crash of severity 0.5 has turned its capital 1000 into
  \<open>1000 * (1 - 8 * 0.5) = -3000\<close>, makes \<open>clear_credit_market\<close> raise AttributeError:
  no code creates the attribute \<open>debt\<close> that \<open>f.debt += repayment\<close> reads.
\<close>

theorem C2_credit_market_raises:
  "FirmAgent_init 0 ''startup'' = Inr scenario1_firm
   \<and> clear_credit_market default_market [deficit_firm] central_bank = Inl AttributeError"
  by (simp add: FirmAgent_init_def archetype_table_def scenario1_firm_def deficit_firm_def
      clear_credit_market_def central_bank_def credit_firm_def default_market_def Let_def)

text \<open>
  Had the firm a debt balance \<open>d\<close>, the market would grant \<open>min(deficit, max_leverage *
  max(capital + deficit, 1))\<close>, add it to the capital and accrue the repayment.
\<close>

lemma credit_firm_with_debt:
  assumes "capital f < 0" and "debt f = Some d"
  shows "credit_firm m rate f =
           Inr (f\<lparr>capital := capital f + min \<bar>capital f\<bar> (max_leverage m * 1),
                  debt := Some (d + min \<bar>capital f\<bar> (max_leverage m * 1) * (1 + rate))\<rparr>)"
  using assms by (simp add: credit_firm_def Let_def)

section \<open>The household reward\<close>

text \<open>
  C3 (the code misses it): \<open>HouseholdAgent.compute_reward\<close> raises TypeError for every
  household, state and exposure: it calls \<open>household_reward\<close> with the keywords
  \<open>consumption_utility\<close> and \<open>unemployment\<close>, and the parameters are named
  \<open>consumption\<close> and \<open>unemployment_risk\<close>.
\<close>

theorem C3_compute_reward_raises:
  "household_compute_reward h gs local_exposure = Inl TypeError"
  by (simp add: household_compute_reward_def call_household_reward_def bind_keywords_def)

text \<open>
  The reward function itself, called with its own parameter names, is total and clipped.
\<close>

lemma household_reward_bounded:
  "- 5 \<le> household_reward c i u x a b g \<and> household_reward c i u x a b g \<le> 5"
  by (simp add: household_reward_def np_clip_def Let_def)

section \<open>The top-percentile wealth share\<close>

lemma np_clip_mono: "x \<le> y \<Longrightarrow> np_clip x lo hi \<le> np_clip y lo hi"
  by (auto simp: np_clip_def min_def max_def)

lemma np_clip_bounds: "lo \<le> hi \<Longrightarrow> lo \<le> np_clip x lo hi \<and> np_clip x lo hi \<le> hi"
  by (auto simp: np_clip_def)

lemma np_clip_at_hi: "lo \<le> hi \<Longrightarrow> hi \<le> x \<Longrightarrow> np_clip x lo hi = hi"
  by (auto simp: np_clip_def)

text \<open>
  The prefix sums of a descending list rise while the entries are non-negative; from the
  first negative entry on, what is left to add is negative, so the prefix holds at least
  the whole sum.
\<close>

lemma prefix_sums_descending:
  fixes ys :: "real list"
  assumes desc: "sorted_wrt (\<lambda>a b. b \<le> a) ys" and le: "k1 \<le> k2"
  shows "sum_list (take k1 ys) \<le> sum_list (take k2 ys) \<or> sum_list ys \<le> sum_list (take k2 ys)"
proof (cases "\<forall>x \<in> set (take (k2 - k1) (drop k1 ys)). 0 \<le> x")
  case True
  have "take k2 ys = take k1 ys @ take (k2 - k1) (drop k1 ys)"
    using le by (metis le_add_diff_inverse take_add)
  then have "sum_list (take k2 ys) = sum_list (take k1 ys) + sum_list (take (k2 - k1) (drop k1 ys))"
    by simp
  moreover have "0 \<le> sum_list (take (k2 - k1) (drop k1 ys))"
    using True by (simp add: sum_list_nonneg)
  ultimately show ?thesis by simp
next
  case False
  then obtain x where x: "x \<in> set (take (k2 - k1) (drop k1 ys))" "x < 0" by force
  have "take (k2 - k1) (drop k1 ys) = drop k1 (take k2 ys)"
    using le by (simp add: drop_take)
  then have xin: "x \<in> set (take k2 ys)" using x(1) by (metis in_set_dropD)
  have "sorted_wrt (\<lambda>a b. b \<le> a) (take k2 ys @ drop k2 ys)" using desc by simp
  then have "\<forall>y \<in> set (drop k2 ys). y \<le> x"
    using xin unfolding sorted_wrt_append by blast
  then have "\<forall>y \<in> set (drop k2 ys). y \<le> 0" using x(2) by force
  then have "sum_list (drop k2 ys) \<le> 0" by (simp add: sum_list_nonpos)
  moreover have "sum_list ys = sum_list (take k2 ys) + sum_list (drop k2 ys)"
    by (metis append_take_drop_id sum_list.append)
  ultimately show ?thesis by simp
qed

lemma sum_list_insort: "sum_list (insort x xs) = x + sum_list (xs :: real list)"
  by (induction xs) auto

lemma sum_list_sort: "sum_list (sort xs) = sum_list (xs :: real list)"
  by (induction xs) (auto simp: sum_list_insort)

lemma descending_rev_sort: "sorted_wrt (\<lambda>a b. b \<le> a) (rev (sort (ws :: real list)))"
  by (simp add: sorted_wrt_rev)

subsection \<open>Rounding to the nearest double\<close>

text \<open>
  Rounding to the nearest integer with ties to even is monotone, odd, and leaves the
  integers where they are.
\<close>

lemma round_half_even_mono: "x \<le> y \<Longrightarrow> round_half_even x \<le> round_half_even y"
proof -
  assume xy: "x \<le> y"
  have fl: "\<lfloor>x\<rfloor> \<le> \<lfloor>y\<rfloor>" using xy by (rule floor_mono)
  show ?thesis
  proof (cases "\<lfloor>x\<rfloor> = \<lfloor>y\<rfloor>")
    case True
    then show ?thesis using xy by (auto simp: round_half_even_def Let_def)
  next
    case False
    then have "\<lfloor>x\<rfloor> + 1 \<le> \<lfloor>y\<rfloor>" using fl by simp
    moreover have "round_half_even x \<le> \<lfloor>x\<rfloor> + 1" by (simp add: round_half_even_def Let_def powr_neg_numeral)
    moreover have "\<lfloor>y\<rfloor> \<le> round_half_even y" by (simp add: round_half_even_def Let_def powr_neg_numeral)
    ultimately show ?thesis by linarith
  qed
qed

lemma round_half_even_of_int: "round_half_even (of_int n) = n"
  by (simp add: round_half_even_def)

lemma round_half_even_minus: "round_half_even (- x) = - round_half_even x"
proof (cases "x = of_int \<lfloor>x\<rfloor>")
  case True
  then have "- x = of_int (- \<lfloor>x\<rfloor>)" by simp
  then show ?thesis using True by (metis round_half_even_of_int)
next
  case False
  then have c: "\<lceil>x\<rceil> = \<lfloor>x\<rfloor> + 1" by (simp add: ceiling_altdef)
  have f: "\<lfloor>- x\<rfloor> = - \<lfloor>x\<rfloor> - 1" using c by (simp add: ceiling_def)
  show ?thesis unfolding round_half_even_def Let_def f
    by (auto simp: field_simps)
qed

lemma floor_log2_bounds:
  assumes "0 < x"
  shows "2 powr of_int \<lfloor>log 2 x\<rfloor> \<le> x" and "x < 2 powr (of_int \<lfloor>log 2 x\<rfloor> + 1)"
  using assms floor_log_eq_powr_iff [of x 2 "\<lfloor>log 2 x\<rfloor>"] by simp_all

lemma to_double_eval:
  assumes "2 powr of_int e \<le> \<bar>x\<bar>" and "\<bar>x\<bar> < 2 powr (of_int e + 1)" and "- 1022 \<le> e"
  shows "to_double x = of_int (round_half_even (x / 2 powr (of_int e - 52))) * 2 powr (of_int e - 52)"
proof -
  have pos: "0 < \<bar>x\<bar>" using assms(1) by (smt (verit) powr_gt_zero)
  then have "\<lfloor>log 2 \<bar>x\<bar>\<rfloor> = e"
    using assms floor_log_eq_powr_iff [of "\<bar>x\<bar>" 2 e] by simp
  then have "double_exponent x = e" using assms(3) by (simp add: double_exponent_def)
  then show ?thesis using pos by (simp add: to_double_def Let_def)
qed

lemma round_half_even_le: "x \<le> of_int n \<Longrightarrow> round_half_even x \<le> n"
  using round_half_even_mono [of x "of_int n"] by (simp add: round_half_even_of_int)

lemma round_half_even_ge: "of_int n \<le> x \<Longrightarrow> n \<le> round_half_even x"
  using round_half_even_mono [of "of_int n" x] by (simp add: round_half_even_of_int)

lemma to_double_minus: "to_double (- x) = - to_double x"
  by (simp add: to_double_def double_exponent_def Let_def round_half_even_minus)

lemma to_double_nonneg: "0 \<le> x \<Longrightarrow> 0 \<le> to_double x"
proof -
  assume x: "0 \<le> x"
  have "0 \<le> round_half_even (x / 2 powr (of_int (double_exponent x) - 52))"
    using x by (intro round_half_even_ge) simp
  then show ?thesis by (simp add: to_double_def Let_def)
qed

lemma to_double_pos_mono:
  assumes x: "0 < x" and xy: "x \<le> y"
  shows "to_double x \<le> to_double y"
proof -
  define ex where "ex = double_exponent x"
  define ey where "ey = double_exponent y"
  define ux :: real where "ux = 2 powr (of_int ex - 52)"
  define uy :: real where "uy = 2 powr (of_int ey - 52)"
  have y: "0 < y" using x xy by simp
  have ux: "0 < ux" and uy: "0 < uy" by (simp_all add: ux_def uy_def)
  have tx: "to_double x = of_int (round_half_even (x / ux)) * ux"
    using x by (simp add: to_double_def Let_def ux_def ex_def)
  have ty: "to_double y = of_int (round_half_even (y / uy)) * uy"
    using y by (simp add: to_double_def Let_def uy_def ey_def)
  have "log 2 x \<le> log 2 y" using x xy by simp
  then have "\<lfloor>log 2 x\<rfloor> \<le> \<lfloor>log 2 y\<rfloor>" by (rule floor_mono)
  then have exy: "ex \<le> ey" using x y by (simp add: ex_def ey_def double_exponent_def)
  show ?thesis
  proof (cases "ex = ey")
    case True
    then have "ux = uy" by (simp add: ux_def uy_def)
    moreover have "x / uy \<le> y / uy" using xy uy by (simp add: divide_right_mono)
    then have "round_half_even (x / uy) \<le> round_half_even (y / uy)"
      by (rule round_half_even_mono)
    ultimately show ?thesis unfolding tx ty using uy by simp
  next
    case False
    then have lt: "ex + 1 \<le> ey" using exy by simp
    have "\<lfloor>log 2 x\<rfloor> \<le> ex" using x by (simp add: ex_def double_exponent_def)
    then have "(2::real) powr (of_int \<lfloor>log 2 x\<rfloor> + 1) \<le> 2 powr (of_int ex + 1)"
      by (intro powr_mono) simp_all
    with floor_log2_bounds(2) [OF x] have xb: "x \<le> 2 powr (of_int ex + 1)"
      by linarith
    have "(2::real) powr (of_int ex + 1) / ux = 2 powr 53"
      unfolding ux_def by (simp flip: powr_diff)
    then have "x / ux \<le> 2 powr 53" using xb ux by (metis divide_right_mono less_imp_le)
    then have "x / ux \<le> of_int (2 ^ 53)" by simp
    then have "round_half_even (x / ux) \<le> 2 ^ 53" by (rule round_half_even_le)
    then have "of_int (round_half_even (x / ux)) * ux \<le> of_int (2 ^ 53) * ux"
      using ux by (intro mult_right_mono) simp_all
    also have "of_int (2 ^ 53) * ux = 2 powr 53 * ux" by simp
    also have "\<dots> = 2 powr (of_int ex + 1)" unfolding ux_def by (subst powr_add [symmetric]) (simp add: add.commute)
    finally have a: "to_double x \<le> 2 powr (of_int ex + 1)" unfolding tx .
    have "- 1022 \<le> ex" unfolding ex_def double_exponent_def by (rule max.cobounded2)
    then have "- 1022 < ey" using lt by linarith
    moreover have "ey = max \<lfloor>log 2 \<bar>y\<bar>\<rfloor> (- 1022)" by (simp only: ey_def double_exponent_def)
    ultimately have "ey = \<lfloor>log 2 \<bar>y\<bar>\<rfloor>" by linarith
    then have "ey = \<lfloor>log 2 y\<rfloor>" using y by simp
    then have yb: "(2::real) powr of_int ey \<le> y" using floor_log2_bounds(1) [OF y] by simp
    have "(2::real) powr of_int ey / uy = 2 powr 52"
      unfolding uy_def by (simp flip: powr_diff)
    then have "(2::real) powr 52 \<le> y / uy" using yb uy by (metis divide_right_mono less_imp_le)
    then have "of_int (2 ^ 52) \<le> y / uy" by simp
    then have "2 ^ 52 \<le> round_half_even (y / uy)" by (rule round_half_even_ge)
    then have "of_int (2 ^ 52) * uy \<le> of_int (round_half_even (y / uy)) * uy"
      using uy by (intro mult_right_mono) simp_all
    moreover have "of_int (2 ^ 52) * uy = 2 powr 52 * uy" by simp
    moreover have "(2::real) powr 52 * uy = 2 powr of_int ey" unfolding uy_def by (subst powr_add [symmetric]) (simp add: add.commute)
    ultimately have b: "(2::real) powr of_int ey \<le> to_double y" unfolding ty by simp
    have "(2::real) powr (of_int ex + 1) \<le> 2 powr of_int ey"
    proof (rule powr_mono)
      show "real_of_int ex + 1 \<le> real_of_int ey" using lt by linarith
    qed simp
    with a b show ?thesis by linarith
  qed
qed

lemma to_double_mono: "x \<le> y \<Longrightarrow> to_double x \<le> to_double y"
proof -
  assume xy: "x \<le> y"
  consider "0 < x" | "x \<le> 0" "0 \<le> y" | "y < 0" by linarith
  then show ?thesis
  proof cases
    case 1
    then show ?thesis using xy by (rule to_double_pos_mono)
  next
    case 2
    have "0 \<le> to_double (- x)" using 2(1) by (intro to_double_nonneg) simp
    then have "to_double x \<le> 0" by (simp add: to_double_minus)
    moreover have "0 \<le> to_double y" using 2(2) by (rule to_double_nonneg)
    ultimately show ?thesis by simp
  next
    case 3
    then have "to_double (- y) \<le> to_double (- x)" using xy by (intro to_double_pos_mono) simp_all
    then show ?thesis by (simp add: to_double_minus)
  qed
qed

text \<open>The integers below \<open>2^53\<close> in absolute value are doubles.\<close>

lemma to_double_of_int:
  assumes "\<bar>n\<bar> < 2 ^ 53"
  shows "to_double (of_int n) = of_int n"
proof (cases "n = 0")
  case True
  then show ?thesis by (simp add: to_double_def)
next
  case False
  define x where "x = \<bar>real_of_int n\<bar>"
  define e where "e = \<lfloor>log 2 x\<rfloor>"
  define m where "m = nat (52 - e)"
  have "1 \<le> \<bar>n\<bar>" using False by simp
  then have pos: "1 \<le> x" unfolding x_def by (metis of_int_1 of_int_abs of_int_le_iff)
  have "real_of_int \<bar>n\<bar> < real_of_int (2 ^ 53)" using assms by (simp only: of_int_less_iff)
  then have lt: "x < 2 ^ 53" unfolding x_def by simp
  have "0 \<le> log 2 x" using pos by simp
  then have e0: "0 \<le> e" unfolding e_def by simp
  have "x < 2 powr 53" using lt by simp
  then have "log 2 x < 53" using pos by (simp add: log_less_iff)
  then have e52: "e \<le> 52" unfolding e_def by (simp add: floor_less_iff)
  have de: "double_exponent (of_int n) = e"
    using e0 by (simp add: double_exponent_def e_def x_def)
  have "real_of_int e - 52 = - real m" unfolding m_def using e52 by simp
  then have "(2::real) powr (of_int e - 52) = 2 powr (- real m)" by simp
  also have "\<dots> = 1 / 2 ^ m" by (simp add: powr_minus powr_realpow divide_inverse)
  finally have u: "(2::real) powr (of_int e - 52) = 1 / 2 ^ m" .
  have "real_of_int n / (1 / 2 ^ m) = of_int (n * 2 ^ m)" by simp
  then have "round_half_even (real_of_int n / (1 / 2 ^ m)) = n * 2 ^ m"
    by (simp only: round_half_even_of_int)
  then show ?thesis using False by (simp add: to_double_def Let_def de u)
qed

lemma to_double_numeral [simp]:
  "\<bar>numeral n\<bar> < (2::int) ^ 53 \<Longrightarrow> to_double (numeral n) = numeral n"
  using to_double_of_int [of "numeral n"] by simp

lemma to_double_0 [simp]: "to_double 0 = 0"
  by (simp add: to_double_def)

lemma to_double_1 [simp]: "to_double 1 = 1"
  using to_double_of_int [of 1] by simp

lemma monotone_rounding_doubles: "monotone_rounding doubles"
  using to_double_of_int [of 1] to_double_mono
  by (simp add: monotone_rounding_def doubles_def to_double_def)

subsection \<open>The share in any arithmetic with exact sums\<close>

lemma exact_sums_take:
  assumes ex: "exact_sums A ws" and ne: "ws \<noteq> []" and k: "1 \<le> k"
  shows "asum A (take k (rev (sort ws))) = sum_list (take k (rev (sort ws)))"
proof -
  define j where "j = min k (length ws)"
  have "take k (rev (sort ws)) = take j (rev (sort ws))" by (simp add: j_def min_def)
  moreover have "j \<in> set [1..<length ws + 1]" using ne k by (cases ws) (auto simp: j_def)
  moreover have "\<forall>i \<in> set [1..<length ws + 1].
      asum A (take i (rev (sort ws))) = sum_list (take i (rev (sort ws)))"
    using ex unfolding exact_sums_def list_all_iff by (rule conjunct2)
  ultimately show ?thesis by (simp only:)
qed

lemma wealth_share_mono:
  assumes mr: "monotone_rounding A" and ex: "exact_sums A (map (rnd A) w)" and p: "p1 \<le> p2"
  shows "calculate_wealth_share A w p1 \<le> calculate_wealth_share A w p2"
proof (cases "length w = 0 \<or> asum A (map (rnd A) w) \<le> 0")
  case True
  then show ?thesis by (auto simp: calculate_wealth_share_def Let_def)
next
  case False
  define ws where "ws = map (rnd A) w"
  define T where "T = asum A ws"
  define ys where "ys = rev (sort ws)"
  define k1 where "k1 = nat (max 1 \<lceil>rnd A (real (length ws) * p1)\<rceil>)"
  define k2 where "k2 = nat (max 1 \<lceil>rnd A (real (length ws) * p2)\<rceil>)"
  have mono: "\<And>x y. x \<le> y \<Longrightarrow> rnd A x \<le> rnd A y" and one: "rnd A 1 = 1"
    using mr by (simp_all add: monotone_rounding_def)
  have ne: "ws \<noteq> []" using False by (auto simp: ws_def)
  have T: "0 < T" using False by (simp add: T_def ws_def)
  have Tsum: "T = sum_list ws" using ex by (simp add: T_def ws_def exact_sums_def)
  have sumys: "sum_list ys = T" by (simp add: ys_def Tsum sum_list_sort)
  have "real (length ws) * p1 \<le> real (length ws) * p2"
    using p by (simp add: mult_left_mono)
  then have "rnd A (real (length ws) * p1) \<le> rnd A (real (length ws) * p2)" by (rule mono)
  then have k: "k1 \<le> k2" unfolding k1_def k2_def by (intro nat_mono max.mono ceiling_mono) simp_all
  have t1: "asum A (take k1 ys) = sum_list (take k1 ys)"
    unfolding ys_def using ex ne by (intro exact_sums_take) (simp_all add: ws_def k1_def)
  have t2: "asum A (take k2 ys) = sum_list (take k2 ys)"
    unfolding ys_def using ex ne by (intro exact_sums_take) (simp_all add: ws_def k2_def)
  have s1: "calculate_wealth_share A w p1 = np_clip (rnd A (sum_list (take k1 ys) / T)) 0 1"
    using False unfolding t1 [symmetric]
    by (simp add: calculate_wealth_share_def Let_def T_def ys_def k1_def ws_def)
  have s2: "calculate_wealth_share A w p2 = np_clip (rnd A (sum_list (take k2 ys) / T)) 0 1"
    using False unfolding t2 [symmetric]
    by (simp add: calculate_wealth_share_def Let_def T_def ys_def k2_def ws_def)
  from prefix_sums_descending [OF descending_rev_sort k, of ws]
  consider "sum_list (take k1 ys) \<le> sum_list (take k2 ys)" | "T \<le> sum_list (take k2 ys)"
    unfolding ys_def [symmetric] sumys by blast
  then show ?thesis
  proof cases
    case 1
    then have "sum_list (take k1 ys) / T \<le> sum_list (take k2 ys) / T"
      using T by (simp add: divide_right_mono)
    then have "rnd A (sum_list (take k1 ys) / T) \<le> rnd A (sum_list (take k2 ys) / T)"
      by (rule mono)
    then show ?thesis unfolding s1 s2 by (rule np_clip_mono)
  next
    case 2
    then have "1 \<le> sum_list (take k2 ys) / T" using T by simp
    then have "rnd A 1 \<le> rnd A (sum_list (take k2 ys) / T)" by (rule mono)
    then have "np_clip (rnd A (sum_list (take k2 ys) / T)) 0 1 = 1"
      unfolding one by (simp add: np_clip_at_hi)
    then show ?thesis unfolding s1 s2 by (simp add: np_clip_bounds)
  qed
qed

lemma wealth_share_zeros:
  assumes mr: "monotone_rounding A" and ex: "exact_sums A (map (rnd A) w)"
    and z: "\<forall>x \<in> set w. x = 0"
  shows "calculate_wealth_share A w p = 0"
proof -
  have "map (rnd A) w = map (\<lambda>x. 0) w"
    using z mr by (intro map_cong) (auto simp: monotone_rounding_def)
  moreover have "sum_list (map (\<lambda>x. 0 :: real) w) = 0" by (induction w) simp_all
  ultimately have "sum_list (map (rnd A) w) = 0" by (simp only:)
  then have "asum A (map (rnd A) w) = 0" using ex by (simp add: exact_sums_def)
  then show ?thesis by (simp add: calculate_wealth_share_def Let_def)
qed

text \<open>
  C8, with the proviso it needs: in an arithmetic whose rounding is monotone and fixes 0
  and 1, and for a wealth list \<open>w\<close>, negative entries included, whose converted entries
  have sums without rounding error (the total, and the sum of the \<open>k\<close> largest for every
  \<open>k\<close>), \<open>p1 \<le> p2\<close> gives
  \<open>calculate_wealth_share A w p1 \<le> calculate_wealth_share A w p2\<close>; the share of the
  empty list is 0, and so is the share of a list of \<open>n\<close> zeros when its sums are exact.
\<close>

theorem C8_wealth_share_monotone_exact_sums:
  assumes "monotone_rounding A" and "exact_sums A (map (rnd A) w)" and "p1 \<le> p2"
    and "exact_sums A (map (rnd A) (replicate n 0))"
  shows "calculate_wealth_share A w p1 \<le> calculate_wealth_share A w p2
       \<and> calculate_wealth_share A [] p = 0
       \<and> calculate_wealth_share A (replicate n 0) p = 0"
proof -
  have "calculate_wealth_share A w p1 \<le> calculate_wealth_share A w p2"
    using assms(1,2,3) by (rule wealth_share_mono)
  moreover have "calculate_wealth_share A [] p = 0"
    by (simp add: calculate_wealth_share_def)
  moreover have "calculate_wealth_share A (replicate n 0) p = 0"
    using assms(1,4) by (rule wealth_share_zeros) simp
  ultimately show ?thesis by simp
qed

text \<open>
  The share computed from given intermediate values, and the share of a list of zeros in
  doubles, where the sums of zeros are exact.
\<close>

lemma wealth_share_eval:
  assumes "map (rnd A) w = ws" and "ws \<noteq> []" and "asum A ws = T" and "0 < T"
    and "rnd A (real (length ws) * p) = q" and "nat (max 1 \<lceil>q\<rceil>) = k"
    and "rev (sort ws) = ys" and "asum A (take k ys) = h" and "rnd A (h / T) = s"
  shows "calculate_wealth_share A w p = np_clip s 0 1"
  using assms by (auto simp: calculate_wealth_share_def Let_def)

lemma seq_sum_zeros: "seq_sum (replicate n 0) = 0"
  unfolding seq_sum_def by (induction n) simp_all

lemma wealth_share_doubles_zeros: "calculate_wealth_share doubles (replicate n 0) p = 0"
  by (simp add: calculate_wealth_share_def doubles_def seq_sum_zeros Let_def)

text \<open>
  The proviso holds in doubles for integer-valued wealths whose absolute values sum to
  less than \<open>2^53\<close>: every partial sum is an integer below \<open>2^53\<close>, hence a double, in
  whatever order the entries are added. On such lists the share in doubles is monotone.
\<close>

lemma to_double_Ints:
  assumes "x \<in> \<int>" and "\<bar>x\<bar> < 2 ^ 53"
  shows "to_double x = x"
proof -
  from assms(1) obtain n where n: "x = of_int n" by (auto elim: Ints_cases)
  have "real_of_int \<bar>n\<bar> < real_of_int (2 ^ 53)" using assms(2) n by simp
  then have "\<bar>n\<bar> < 2 ^ 53" by (simp only: of_int_less_iff)
  then show ?thesis unfolding n by (rule to_double_of_int)
qed

lemma sum_list_abs_nonneg: "0 \<le> sum_list (map abs (xs :: real list))"
  by (induction xs) simp_all

lemma abs_le_sum_list_abs: "x \<in> set xs \<Longrightarrow> \<bar>x\<bar> \<le> sum_list (map abs (xs :: real list))"
  using sum_list_abs_nonneg by (induction xs) (auto simp: add_increasing add_increasing2)

lemma foldl_to_double_Ints:
  assumes "s \<in> \<int>" and "\<forall>x \<in> set xs. x \<in> \<int>"
    and "\<bar>s\<bar> + sum_list (map abs xs) < 2 ^ 53"
  shows "foldl (\<lambda>s x. to_double (s + x)) s xs = s + sum_list xs"
  using assms
proof (induction xs arbitrary: s)
  case Nil
  then show ?case by simp
next
  case (Cons x xs)
  have nn: "0 \<le> sum_list (map abs xs)" by (rule sum_list_abs_nonneg)
  have i: "s + x \<in> \<int>" using Cons.prems(1,2) by simp
  have "\<bar>s + x\<bar> \<le> \<bar>s\<bar> + \<bar>x\<bar>" by simp
  then have b: "\<bar>s + x\<bar> + sum_list (map abs xs) < 2 ^ 53" using Cons.prems(3) by simp
  then have "\<bar>s + x\<bar> < 2 ^ 53" using nn by linarith
  then have t: "to_double (s + x) = s + x" using i by (intro to_double_Ints)
  have "foldl (\<lambda>s x. to_double (s + x)) (s + x) xs = (s + x) + sum_list xs"
    using i Cons.prems(2) b by (intro Cons.IH) simp_all
  then show ?case by (simp add: t)
qed

lemma seq_sum_Ints:
  assumes "\<forall>x \<in> set xs. x \<in> \<int>" and "sum_list (map abs xs) < 2 ^ 53"
  shows "seq_sum xs = sum_list xs"
  unfolding seq_sum_def using foldl_to_double_Ints [of 0 xs] assms by simp

lemma sum_list_abs_insort:
  "sum_list (map abs (insort x xs)) = \<bar>x\<bar> + sum_list (map abs (xs :: real list))"
  by (induction xs) auto

lemma sum_list_abs_sort: "sum_list (map abs (sort xs)) = sum_list (map abs (xs :: real list))"
  by (induction xs) (auto simp: sum_list_abs_insort)

lemma sum_list_abs_take:
  "sum_list (map abs (take k xs)) \<le> sum_list (map abs (xs :: real list))"
proof -
  have "sum_list (map abs xs) = sum_list (map abs (take k xs)) + sum_list (map abs (drop k xs))"
    by (metis append_take_drop_id map_append sum_list.append)
  moreover have "0 \<le> sum_list (map abs (drop k xs))" by (rule sum_list_abs_nonneg)
  ultimately show ?thesis by simp
qed

lemma exact_sums_Ints:
  assumes int: "\<forall>x \<in> set ws. x \<in> \<int>" and small: "sum_list (map abs ws) < 2 ^ 53"
  shows "map (rnd doubles) ws = ws" and "exact_sums doubles ws"
proof -
  have "\<forall>x \<in> set ws. \<bar>x\<bar> < 2 ^ 53"
  proof
    fix x assume "x \<in> set ws"
    then have "\<bar>x\<bar> \<le> sum_list (map abs ws)"
      by (rule abs_le_sum_list_abs)
    then show "\<bar>x\<bar> < 2 ^ 53" using small by linarith
  qed
  then have "\<forall>x \<in> set ws. to_double x = x" using int by (simp add: to_double_Ints)
  then show "map (rnd doubles) ws = ws" by (simp add: doubles_def map_idI)
  have tot: "seq_sum ws = sum_list ws" using int small by (rule seq_sum_Ints)
  have pre: "seq_sum (take k (rev (sort ws))) = sum_list (take k (rev (sort ws)))" for k
  proof (rule seq_sum_Ints)
    show "\<forall>x \<in> set (take k (rev (sort ws))). x \<in> \<int>"
      using int by (auto dest: in_set_takeD)
    have "sum_list (map abs (take k (rev (sort ws)))) \<le> sum_list (map abs (rev (sort ws)))"
      by (rule sum_list_abs_take)
    also have "\<dots> = sum_list (map abs ws)"
      by (simp add: rev_map [symmetric] sum_list_abs_sort)
    finally show "sum_list (map abs (take k (rev (sort ws)))) < 2 ^ 53" using small by simp
  qed
  show "exact_sums doubles ws"
    by (simp add: exact_sums_def doubles_def tot pre list_all_iff)
qed

lemma wealth_share_doubles_integers:
  assumes "\<forall>x \<in> set w. x \<in> \<int>" and "sum_list (map abs w) < 2 ^ 53" and "p1 \<le> p2"
  shows "calculate_wealth_share doubles w p1 \<le> calculate_wealth_share doubles w p2"
proof -
  have "exact_sums doubles (map (rnd doubles) w)"
    using exact_sums_Ints [OF assms(1,2)] by simp
  with monotone_rounding_doubles show ?thesis using assms(3) by (rule wealth_share_mono)
qed

text \<open>
  The theorem in doubles at the list \<open>[5, 3, -1, 1]\<close>, whose entries and sums are small
  integers, and at a list of two zeros: the top quarter holds 5 of 8, the top half holds
  all of it.
\<close>

theorem C8_wealth_share_monotone_exact_sums_witness:
  "monotone_rounding doubles
   \<and> exact_sums doubles (map (rnd doubles) [5, 3, - 1, 1])
   \<and> (1/4 :: real) \<le> 1/2
   \<and> exact_sums doubles (map (rnd doubles) (replicate 2 0))
   \<and> calculate_wealth_share doubles [5, 3, - 1, 1] (1/4) = 5/8
   \<and> calculate_wealth_share doubles [5, 3, - 1, 1] (1/2) = 1
   \<and> calculate_wealth_share doubles [5, 3, - 1, 1] (1/4)
       \<le> calculate_wealth_share doubles [5, 3, - 1, 1] (1/2)
   \<and> calculate_wealth_share doubles [] (1/2) = 0
   \<and> calculate_wealth_share doubles (replicate 2 0) (1/2) = 0"
proof -
  have mr: "monotone_rounding doubles" by (rule monotone_rounding_doubles)
  have ws: "map (rnd doubles) [5, 3, - 1, 1] = [5, 3, - 1, 1]"
    by (simp add: doubles_def to_double_minus)
  have srt: "rev (sort [5, 3, - 1, 1 :: real]) = [5, 3, 1, - 1]" by simp
  have ex: "exact_sums doubles (map (rnd doubles) [5, 3, - 1, 1])"
    unfolding ws exact_sums_def srt
    by (simp add: doubles_def seq_sum_def to_double_minus)
  have zs: "replicate 2 (0 :: real) = [0, 0]" by (simp add: numeral_2_eq_2)
  have ez: "exact_sums doubles (map (rnd doubles) (replicate 2 0))"
    unfolding zs exact_sums_def
    by (simp add: doubles_def seq_sum_def)
  have e58: "to_double (5/8) = 5/8"
    using to_double_eval [of "- 1" "5/8"]
    by (simp add: round_half_even_def Let_def powr_neg_numeral)
  have a: "calculate_wealth_share doubles [5, 3, - 1, 1] (1/4) = 5/8"
    unfolding calculate_wealth_share_def ws Let_def srt
    by (simp add: doubles_def seq_sum_def np_clip_def e58)
  have b: "calculate_wealth_share doubles [5, 3, - 1, 1] (1/2) = 1"
    unfolding calculate_wealth_share_def ws Let_def srt
    by (simp add: doubles_def seq_sum_def np_clip_def)
  have c: "(1/4 :: real) \<le> 1/2" by simp
  from C8_wealth_share_monotone_exact_sums [OF mr ex c ez, of "1/2"]
  have "calculate_wealth_share doubles [5, 3, - 1, 1] (1/4)
       \<le> calculate_wealth_share doubles [5, 3, - 1, 1] (1/2)"
    and "calculate_wealth_share doubles [] (1/2) = 0"
    and "calculate_wealth_share doubles (replicate 2 0) (1/2) = 0"
    by blast+
  with mr ex ez a b c show ?thesis by blast
qed

subsection \<open>The share in doubles when a sum is rounded\<close>

text \<open>
  C8 as stated fails in doubles. At \<open>w = [-0.9, 0.8, 0.1]\<close> the total, added from left to
  right, is \<open>2^(-55)\<close> and not 0: \<open>-0.9 + 0.8\<close> is exact, and adding the double nearest to
  \<open>0.1\<close> leaves its representation error. At \<open>p = 0.5\<close> the two largest wealths sum to
  the double nearest to \<open>0.9\<close>, far above the total, and the share is clipped to 1; at
  \<open>p = 1.0\<close> the three wealths in descending order sum to exactly 0, and the share is 0.
  So the share falls from 1 to 0 while \<open>p\<close> rises.
\<close>

theorem C8_rounded_sums_not_monotone:
  "asum doubles (map (rnd doubles) [- 9/10, 4/5, 1/10]) = 1 / 2 ^ 55
   \<and> calculate_wealth_share doubles [- 9/10, 4/5, 1/10] (1/2) = 1
   \<and> calculate_wealth_share doubles [- 9/10, 4/5, 1/10] 1 = 0"
proof -
  define a :: real where "a = 8106479329266893 / 2 ^ 53"
  define b :: real where "b = 7205759403792794 / 2 ^ 53"
  define c :: real where "c = 3602879701896397 / 2 ^ 55"
  define d :: real where "d = 900719925474099 / 2 ^ 53"
  define t :: real where "t = 1 / 2 ^ 55"
  have ev: "\<And>e x. 2 powr of_int e \<le> \<bar>x\<bar> \<Longrightarrow> \<bar>x\<bar> < 2 powr (of_int e + 1) \<Longrightarrow> - 1022 \<le> e \<Longrightarrow>
      to_double x = of_int (round_half_even (x / 2 powr (of_int e - 52))) * 2 powr (of_int e - 52)"
    by (rule to_double_eval)
  have a: "to_double (9/10) = a"
    using ev [of "- 1" "9/10"] by (simp add: a_def round_half_even_def Let_def powr_neg_numeral)
  have b: "to_double (4/5) = b"
    using ev [of "- 1" "4/5"] by (simp add: b_def round_half_even_def Let_def powr_neg_numeral)
  have c: "to_double (1/10) = c"
    using ev [of "- 4" "1/10"] by (simp add: c_def round_half_even_def Let_def powr_neg_numeral)
  have ws: "map (rnd doubles) [- 9/10, 4/5, 1/10] = [- a, b, c]"
    using a b c to_double_minus [of "9/10"] by (simp add: doubles_def)
  have g1: "to_double (0 + - a) = - a"
    using ev [of "- 1" "a"] by (simp add: a_def to_double_minus round_half_even_def Let_def powr_neg_numeral)
  have g2: "to_double (- a + b) = - d"
    using ev [of "- 4" "- a + b"] by (simp add: a_def b_def d_def round_half_even_def Let_def powr_neg_numeral)
  have g3: "to_double (- d + c) = t"
    using ev [of "- 55" "- d + c"] by (simp add: d_def c_def t_def round_half_even_def Let_def powr_neg_numeral)
  have total: "asum doubles [- a, b, c] = t"
    by (simp only: doubles_def arithmetic.select_convs seq_sum_def foldl.simps g1 g2 g3)
  have t: "0 < t" by (simp add: t_def)
  have srt: "rev (sort [- a, b, c]) = [b, c, - a]"
    by (simp add: a_def b_def c_def)
  have h1: "to_double b = b"
    using ev [of "- 1" "b"] by (simp add: b_def round_half_even_def Let_def powr_neg_numeral)
  have h2: "to_double (b + c) = a"
    using ev [of "- 1" "b + c"] by (simp add: a_def b_def c_def round_half_even_def Let_def powr_neg_numeral)
  have h3: "to_double (a + - a) = 0" by simp
  have top2: "asum doubles (take 2 [b, c, - a]) = a"
    by (simp add: doubles_def seq_sum_def h1 h2)
  have top3: "asum doubles (take 3 [b, c, - a]) = 0"
    by (simp add: doubles_def seq_sum_def h1 h2 h3)
  have q2: "rnd doubles (real (length [- a, b, c]) * (1/2)) = 3/2"
    using ev [of 0 "3/2"] by (simp add: doubles_def round_half_even_def Let_def powr_neg_numeral)
  have q3: "rnd doubles (real (length [- a, b, c]) * 1) = 3"
    by (simp add: doubles_def)
  have s2: "rnd doubles (a / t) = 32425917317067572"
    using ev [of 54 "a / t"] by (simp add: doubles_def a_def t_def round_half_even_def Let_def)
  have s3: "rnd doubles (0 / t) = 0" by (simp add: doubles_def)
  have "calculate_wealth_share doubles [- 9/10, 4/5, 1/10] (1/2) = np_clip 32425917317067572 0 1"
    using ws _ total t q2 _ srt top2 s2 by (rule wealth_share_eval) simp_all
  moreover have "calculate_wealth_share doubles [- 9/10, 4/5, 1/10] 1 = np_clip 0 0 1"
    using ws _ total t q3 _ srt top3 s3 by (rule wealth_share_eval) simp_all
  ultimately show ?thesis unfolding ws total t_def by (simp add: np_clip_def)
qed

section \<open>The Gini coefficient on wealths that sum to zero\<close>

text \<open>
  The numerator of \<open>calculate_gini\<close>, as a sum over the positions of the sorted list.
\<close>



lemma gini_numerator_index:
  fixes xs :: "real list"
  shows "sum_list (map2 (\<lambda>i x. (2 * real i - real (length xs) - 1) * x) [1..<length xs + 1] xs)
       = (\<Sum>k<length xs. (2 * real k + 1 - real (length xs)) * xs ! k)"
proof -
  let ?n = "length xs"
  let ?l = "map2 (\<lambda>i x. (2 * real i - real ?n - 1) * x) [1..<?n + 1] xs"
  have "length [1..<?n + 1] = ?n" by (simp del: upt_Suc)
  then have len: "length ?l = ?n" by (simp del: upt_Suc length_upt)
  have "sum_list ?l = (\<Sum>k = 0..<length ?l. ?l ! k)" by (rule sum_list_sum_nth)
  also have "\<dots> = (\<Sum>k = 0..<?n. (2 * real k + 1 - real ?n) * xs ! k)"
    unfolding len
  proof (rule sum.cong)
    fix k assume "k \<in> {0..<?n}"
    then have k: "k < ?n" by simp
    then have "[1..<?n + 1] ! k = 1 + k" by (simp del: upt_Suc)
    with k show "?l ! k = (2 * real k + 1 - real ?n) * xs ! k"
      by (simp del: upt_Suc add: algebra_simps)
  qed simp
  finally show ?thesis by (simp add: atLeast0LessThan)
qed

lemma coefficient_sum_zero: "(\<Sum>k<n. 2 * real k + 1 - real n) = 0"
proof (induction n)
  case 0
  then show ?case by simp
next
  case (Suc n)
  have "(\<Sum>k<Suc n. 2 * real k + 1 - real (Suc n))
      = (\<Sum>k<n. (2 * real k + 1 - real n) - 1) + (2 * real n + 1 - real (Suc n))"
    by (simp add: algebra_simps)
  also have "(\<Sum>k<n. (2 * real k + 1 - real n) - 1)
      = (\<Sum>k<n. 2 * real k + 1 - real n) - (\<Sum>k<n. 1)"
    by (rule sum_subtractf)
  finally show ?case using Suc.IH by simp
qed

lemma gini_numerator_positive:
  fixes xs :: "real list"
  assumes srt: "sorted xs" and diff: "\<exists>x \<in> set xs. \<exists>y \<in> set xs. x \<noteq> y"
  shows "0 < (\<Sum>k<length xs. (2 * real k + 1 - real (length xs)) * xs ! k)"
proof -
  let ?n = "length xs"
  define m where "m = (?n - 1) div 2"
  define c where "c = xs ! m"
  have n2: "2 \<le> ?n"
  proof (rule ccontr)
    assume "\<not> 2 \<le> ?n"
    then have "?n = 0 \<or> ?n = 1" by arith
    then show False using diff by (cases xs) auto
  qed
  have m: "m < ?n" using n2 by (simp add: m_def)
  have eq: "(\<Sum>k<?n. (2 * real k + 1 - real ?n) * xs ! k)
          = (\<Sum>k<?n. (2 * real k + 1 - real ?n) * (xs ! k - c))"
  proof -
    have "(\<Sum>k<?n. (2 * real k + 1 - real ?n) * (xs ! k - c))
        = (\<Sum>k<?n. (2 * real k + 1 - real ?n) * xs ! k - (2 * real k + 1 - real ?n) * c)"
      by (simp add: right_diff_distrib)
    also have "\<dots> = (\<Sum>k<?n. (2 * real k + 1 - real ?n) * xs ! k)
                     - (\<Sum>k<?n. (2 * real k + 1 - real ?n) * c)"
      by (rule sum_subtractf)
    also have "(\<Sum>k<?n. (2 * real k + 1 - real ?n) * c) = (\<Sum>k<?n. 2 * real k + 1 - real ?n) * c"
      by (rule sum_distrib_right [symmetric])
    finally show ?thesis by (simp add: coefficient_sum_zero)
  qed
  have nonneg: "0 \<le> (2 * real k + 1 - real ?n) * (xs ! k - c)" if "k < ?n" for k
  proof (cases "k \<le> m")
    case True
    then have "xs ! k \<le> c" unfolding c_def using srt m by (simp add: sorted_nth_mono)
    moreover have "2 * real k + 1 - real ?n \<le> 0"
    proof -
      have "2 * k + 1 \<le> ?n" using True n2 unfolding m_def by arith
      then have "real (2 * k + 1) \<le> real ?n" using of_nat_le_iff by blast
      then show ?thesis by simp
    qed
    ultimately show ?thesis by (simp add: mult_nonpos_nonpos)
  next
    case False
    then have "c \<le> xs ! k" unfolding c_def using srt that by (simp add: sorted_nth_mono)
    moreover have "0 \<le> 2 * real k + 1 - real ?n"
    proof -
      have "?n \<le> 2 * k + 1" using False unfolding m_def by arith
      then have "real ?n \<le> real (2 * k + 1)" using of_nat_le_iff by blast
      then show ?thesis by simp
    qed
    ultimately show ?thesis by simp
  qed
  have lo: "xs ! 0 \<le> c" unfolding c_def using srt m by (simp add: sorted_nth_mono)
  have hi: "c \<le> xs ! (?n - 1)" unfolding c_def using srt m n2 by (simp add: sorted_nth_mono)
  have ends: "xs ! 0 < xs ! (?n - 1)"
  proof (rule ccontr)
    assume "\<not> xs ! 0 < xs ! (?n - 1)"
    then have e: "xs ! (?n - 1) \<le> xs ! 0" by simp
    have "xs ! k = xs ! 0" if "k < ?n" for k
    proof -
      have "xs ! 0 \<le> xs ! k" using srt that by (simp add: sorted_nth_mono)
      moreover have "xs ! k \<le> xs ! (?n - 1)" using srt that by (simp add: sorted_nth_mono)
      ultimately show ?thesis using e by simp
    qed
    then have "\<forall>x \<in> set xs. x = xs ! 0" by (metis in_set_conv_nth)
    then show False using diff by metis
  qed
  have "\<exists>k<?n. 0 < (2 * real k + 1 - real ?n) * (xs ! k - c)"
  proof (cases "xs ! 0 < c")
    case True
    have "1 - real ?n < 0" using n2 by simp
    then have "0 < (2 * real 0 + 1 - real ?n) * (xs ! 0 - c)"
      using True by (simp add: mult_neg_neg)
    then show ?thesis using n2 by (intro exI [of _ 0]) auto
  next
    case False
    then have "c < xs ! (?n - 1)" using lo ends by simp
    moreover have "0 < 2 * real (?n - 1) + 1 - real ?n" using n2 by (simp add: of_nat_diff)
    ultimately have "0 < (2 * real (?n - 1) + 1 - real ?n) * (xs ! (?n - 1) - c)" by simp
    then show ?thesis using n2 by (intro exI [of _ "?n - 1"]) auto
  qed
  then obtain k where k: "k < ?n" "0 < (2 * real k + 1 - real ?n) * (xs ! k - c)" by blast
  have "0 < (\<Sum>k<?n. (2 * real k + 1 - real ?n) * (xs ! k - c))"
    by (rule sum_pos2 [of _ k]) (use k nonneg in auto)
  then show ?thesis unfolding eq .
qed

lemma sum_list_constant: "\<forall>y \<in> set ws. y = x \<Longrightarrow> sum_list ws = real (length ws) * (x :: real)"
  by (induction ws) (auto simp: algebra_simps)

text \<open>
  On wealths that sum to zero without all being zero, the numerator is positive: numpy's
  quotient is \<open>inf\<close>, and the Gini coefficient returned is 1.
\<close>

lemma calculate_gini_zero_sum:
  assumes nz: "\<not> list_all (\<lambda>x. x = 0) ws" and zero: "sum_list ws = 0"
  shows "calculate_gini ws = 1"
proof -
  from nz obtain x where x: "x \<in> set ws" "x \<noteq> 0" by (auto simp: list_all_iff)
  have ne: "ws \<noteq> []" using x by auto
  have "\<exists>y \<in> set ws. y \<noteq> x"
  proof (rule ccontr)
    assume "\<not> (\<exists>y \<in> set ws. y \<noteq> x)"
    then have "sum_list ws = real (length ws) * x" by (intro sum_list_constant) auto
    with zero x(2) ne show False by simp
  qed
  then have diff: "\<exists>a \<in> set (sort ws). \<exists>b \<in> set (sort ws). a \<noteq> b" using x(1) by auto
  have "0 < (\<Sum>k<length (sort ws). (2 * real k + 1 - real (length (sort ws))) * sort ws ! k)"
    by (rule gini_numerator_positive [OF _ diff]) simp
  then have "0 < sum_list (map2 (\<lambda>i x. (2 * real i - real (length (sort ws)) - 1) * x)
                 [1..<length (sort ws) + 1] (sort ws))"
    by (simp only: gini_numerator_index)
  then show ?thesis
    using ne nz zero by (simp add: calculate_gini_def Let_def sum_list_sort del: upt_Suc)
qed

section \<open>Unrest diffusion\<close>

lemma lookup_unrest_total:
  "\<forall>b \<in> set ns. st b \<noteq> None \<Longrightarrow> \<exists>us. lookup_unrest st ns = Inr us \<and> length us = length ns"
  by (induction ns) auto

lemma node_unrest_total:
  assumes "st a \<noteq> None" and "\<forall>b \<in> set (graph_neighbors g a). st b \<noteq> None"
  shows "\<exists>v. node_unrest g st nz a = Inr v \<and> 0 \<le> v \<and> v \<le> 1"
proof -
  obtain own where own: "st a = Some own" using assms(1) by auto
  obtain us where us: "lookup_unrest st (graph_neighbors g a) = Inr us"
    using lookup_unrest_total [OF assms(2)] by auto
  show ?thesis
    using own us by (simp add: node_unrest_def Let_def clip_unrest_def np_clip_bounds)
qed

text \<open>
  What the loop returns: the dictionary it started with, overwritten at each visited node
  by that node's value computed from \<open>household_states\<close>.
\<close>

lemma spread_loop_result:
  assumes "\<forall>a \<in> set ns. \<exists>v. node_unrest g st nz a = Inr v"
  shows "spread_loop g st nz ns acc =
           Inr (\<lambda>a. if a \<in> set ns
                    then (case node_unrest g st nz a of Inr v \<Rightarrow> Some v | Inl e \<Rightarrow> None)
                    else acc a)"
  using assms
proof (induction ns arbitrary: acc)
  case Nil
  then show ?case by simp
next
  case (Cons n ns)
  from Cons.prems obtain v where v: "node_unrest g st nz n = Inr v" by auto
  have rest: "\<forall>a \<in> set ns. \<exists>v. node_unrest g st nz a = Inr v" using Cons.prems by simp
  show ?case
    unfolding spread_loop.simps v sum.case Cons.IH [OF rest]
    by (rule arg_cong [where f = Inr]) (auto simp: fun_eq_iff v)
qed

text \<open>
  C9: on a graph whose nodes and their neighbours all have an entry in
  \<open>household_states\<close>, for any noise, \<open>spread_influence\<close> returns a dictionary over
  exactly the nodes; each node's entry is the value \<open>node_unrest\<close> computes from the
  input snapshot alone, it lies in [0,1], and the result does not depend on the order in
  which the nodes are visited.
\<close>

theorem C9_spread_influence_bounded_snapshot:
  assumes "\<forall>a \<in> set (graph_nodes g). st a \<noteq> None \<and> (\<forall>b \<in> set (graph_neighbors g a). st b \<noteq> None)"
  shows "\<exists>new. spread_influence g st nz = Inr new
           \<and> dom new = set (graph_nodes g)
           \<and> (\<forall>a \<in> set (graph_nodes g). \<exists>v. node_unrest g st nz a = Inr v \<and> new a = Some v
                  \<and> 0 \<le> v \<and> v \<le> 1)
           \<and> (\<forall>order. set order = set (graph_nodes g) \<longrightarrow>
                  spread_influence (g\<lparr>graph_nodes := order\<rparr>) st nz = Inr new)"
proof -
  have tot: "\<forall>a \<in> set (graph_nodes g). \<exists>v. node_unrest g st nz a = Inr v \<and> 0 \<le> v \<and> v \<le> 1"
    using assms node_unrest_total by blast
  then have ex: "\<forall>a \<in> set (graph_nodes g). \<exists>v. node_unrest g st nz a = Inr v" by blast
  define new where "new = (\<lambda>a. if a \<in> set (graph_nodes g)
      then (case node_unrest g st nz a of Inr v \<Rightarrow> Some v | Inl e \<Rightarrow> None) else None)"
  have r: "spread_influence g st nz = Inr new"
    unfolding spread_influence_def new_def using spread_loop_result [OF ex] by simp
  have v: "\<forall>a \<in> set (graph_nodes g). \<exists>v. node_unrest g st nz a = Inr v \<and> new a = Some v
             \<and> 0 \<le> v \<and> v \<le> 1"
    using tot by (auto simp: new_def)
  have "new a = None" if "a \<notin> set (graph_nodes g)" for a
    using that by (simp add: new_def)
  then have d: "dom new = set (graph_nodes g)"
    using v by (fastforce simp: dom_def)
  have o: "spread_influence (g\<lparr>graph_nodes := order\<rparr>) st nz = Inr new"
    if "set order = set (graph_nodes g)" for order
  proof -
    have same: "node_unrest (g\<lparr>graph_nodes := order\<rparr>) st nz = node_unrest g st nz"
      by (auto simp: node_unrest_def fun_eq_iff Let_def split: option.splits sum.splits)
    have ex': "\<forall>a \<in> set order. \<exists>v. node_unrest (g\<lparr>graph_nodes := order\<rparr>) st nz a = Inr v"
      using ex that same by simp
    have "spread_loop (g\<lparr>graph_nodes := order\<rparr>) st nz order Map.empty =
            Inr (\<lambda>a. if a \<in> set order
                     then (case node_unrest (g\<lparr>graph_nodes := order\<rparr>) st nz a of
                             Inr v \<Rightarrow> Some v | Inl e \<Rightarrow> None)
                     else None)"
      by (rule spread_loop_result [OF ex'])
    then show ?thesis
      unfolding same by (simp add: spread_influence_def new_def that)
  qed
  from r d v o show ?thesis by blast
qed

text \<open>
  The theorem on a path of three households with unrest 1, 0 and 1/2 and a noise of 1 at
  every node: every new value is in [0,1], and node 1 moves towards the old value 1 of
  node 0, not towards its new one.
\<close>

theorem C9_spread_influence_witness:
  "\<exists>new. spread_influence path_graph path_states (\<lambda>a. 1) = Inr new
      \<and> new 0 = Some 1 \<and> new 1 = Some 1 \<and> new 2 = Some 1
      \<and> spread_influence path_graph path_states (\<lambda>a. 0)
          = Inr [0 \<mapsto> 29/40, 1 \<mapsto> 3/10, 2 \<mapsto> 5/8]"
proof -
  have pre: "\<forall>a \<in> set (graph_nodes path_graph).
      path_states a \<noteq> None \<and> (\<forall>b \<in> set (graph_neighbors path_graph a). path_states b \<noteq> None)"
    by (simp add: path_graph_def path_states_def del: not_None_eq)
  from C9_spread_influence_bounded_snapshot [OF pre, of "\<lambda>a. 1"]
  obtain new where new: "spread_influence path_graph path_states (\<lambda>a. 1) = Inr new"
    by blast
  have n0: "node_unrest path_graph path_states (\<lambda>a. 1) 0 = Inr 1"
    by (simp add: node_unrest_def path_graph_def path_states_def Let_def
        clip_unrest_def np_clip_def)
  have n1: "node_unrest path_graph path_states (\<lambda>a. 1) 1 = Inr 1"
    by (simp add: node_unrest_def path_graph_def path_states_def Let_def
        clip_unrest_def np_clip_def)
  have n2: "node_unrest path_graph path_states (\<lambda>a. 1) 2 = Inr 1"
    by (simp add: node_unrest_def path_graph_def path_states_def Let_def
        clip_unrest_def np_clip_def)
  have m0: "node_unrest path_graph path_states (\<lambda>a. 0) 0 = Inr (29/40)"
    by (simp add: node_unrest_def path_graph_def path_states_def Let_def
        clip_unrest_def np_clip_def)
  have m1: "node_unrest path_graph path_states (\<lambda>a. 0) 1 = Inr (3/10)"
    by (simp add: node_unrest_def path_graph_def path_states_def Let_def
        clip_unrest_def np_clip_def)
  have m2: "node_unrest path_graph path_states (\<lambda>a. 0) 2 = Inr (5/8)"
    by (simp add: node_unrest_def path_graph_def path_states_def Let_def
        clip_unrest_def np_clip_def)
  have nodes: "graph_nodes path_graph = [0, 1, 2]" by (simp add: path_graph_def)
  have "spread_influence path_graph path_states (\<lambda>a. 1) = Inr [0 \<mapsto> 1, 1 \<mapsto> 1, 2 \<mapsto> 1]"
    by (simp add: spread_influence_def nodes n0 n1 n2)
  with new have eq: "new = [0 \<mapsto> 1, 1 \<mapsto> 1, 2 \<mapsto> 1]" by simp
  have vals: "new 0 = Some 1 \<and> new 1 = Some 1 \<and> new 2 = Some 1"
    unfolding eq by simp
  have quiet: "spread_influence path_graph path_states (\<lambda>a. 0)
      = Inr [0 \<mapsto> 29/40, 1 \<mapsto> 3/10, 2 \<mapsto> 5/8]"
    by (simp add: spread_influence_def nodes m0 m1 m2)
  from new vals quiet show ?thesis by blast
qed

section \<open>The labour market and the households\<close>

lemma is_shuffle_length: "is_shuffle perm n \<Longrightarrow> length perm = n"
  by (metis is_shuffle_def length_sort length_upt minus_nat.diff_0)

text \<open>
  When the total desired labour is not negative the call does what C10 says: the list
  is reordered, the first \<open>min(supply, demand)\<close> households of the reordered list are
  employed and receive exactly the wage, the others are unemployed with their wealth
  untouched, and no other field of any household changes.
\<close>

lemma labor_market_households:
  assumes ok: "clear_labor_market m perm hs fs = Inr (hs', fs', wage, rate)"
    and perm: "is_shuffle perm (length hs)"
    and dem: "labor_demand_sum fs = Inr d" and nonneg: "0 \<le> d"
  shows "length hs' = length hs
       \<and> wage = base_wage m * (1 + wage_adjustment m
                   * tanh (real_of_int (d - int (length hs)) / real (max (length hs) 1)))
       \<and> (\<forall>i < length hs.
            (if int i < min (int (length hs)) d
             then hs' ! i = (hs ! (perm ! i))\<lparr>employed := Some True, wealth := wealth (hs ! (perm ! i)) + wage\<rparr>
             else hs' ! i = (hs ! (perm ! i))\<lparr>employed := Some False\<rparr>))"
proof -
  define n where "n = min (int (length hs)) d"
  have len: "length perm = length hs" using perm by (rule is_shuffle_length)
  have n0: "0 \<le> n" "n \<le> int (length hs)" using nonneg by (simp_all add: n_def)
  have hired: "length (py_prefix n (shuffle perm hs)) = nat n"
    using n0 len by (simp add: py_prefix_def shuffle_def)
  have hs': "hs' = map (\<lambda>h. h\<lparr>employed := Some True, wealth := wealth h + wage\<rparr>)
                     (take (nat n) (map (\<lambda>h. h\<lparr>employed := Some False\<rparr>) (shuffle perm hs)))
                 @ drop (nat n) (map (\<lambda>h. h\<lparr>employed := Some False\<rparr>) (shuffle perm hs))"
    and wage: "wage = base_wage m * (1 + wage_adjustment m
                   * tanh (real_of_int (d - int (length hs)) / real (max (length hs) 1)))"
    using ok dem hired
    by (auto simp: clear_labor_market_def Let_def n_def split: sum.splits if_splits)
  have l: "length hs' = length hs" unfolding hs' using len by (simp add: shuffle_def)
  have "\<forall>i < length hs.
            (if int i < n
             then hs' ! i = (hs ! (perm ! i))\<lparr>employed := Some True, wealth := wealth (hs ! (perm ! i)) + wage\<rparr>
             else hs' ! i = (hs ! (perm ! i))\<lparr>employed := Some False\<rparr>)"
    unfolding hs' using len n0 by (auto simp: nth_append shuffle_def)
  with l wage show ?thesis unfolding n_def by blast
qed

text \<open>
  C10 (the code misses a case): a startup whose capital is -60 leaves its \<open>step\<close> with
  \<open>desired_labor = min(100, int(-60/50)) = -1\<close>. With three households the labour
  market then computes \<open>min(3, -1) = -1\<close> employed and an unemployment rate of 4/3, and
  the slice \<open>households[:-1]\<close> employs and pays the first two households, where the
  claim has the first \<open>min(supply, demand)\<close>, that is none.
\<close>

theorem C10_negative_demand_employs:
  "firm_step scenario1_conditions indebted_firm
      = Inr (indebted_firm\<lparr>desired_labor := Some (- 1), price := 10, revenue := Some 0,
               wage_bill := Some 0\<rparr>)
   \<and> (\<exists>hs' fs' wage.
        clear_labor_market default_market [0, 1, 2]
          [plain_household 0, plain_household 1, plain_household 2]
          [indebted_firm\<lparr>desired_labor := Some (- 1), price := 10, revenue := Some 0,
             wage_bill := Some 0\<rparr>]
         = Inr (hs', fs', wage, 4/3)
        \<and> min (int (length [plain_household 0, plain_household 1, plain_household 2])) (- 1) = - 1
        \<and> map employed hs' = [Some True, Some True, Some False]
        \<and> map wealth hs' = [100 + wage, 100 + wage, 100]
        \<and> map hid hs' = [0, 1, 2])"
  by (simp add: firm_step_def labor_required_def expected_demand_def max_labor_budget_def
      scenario1_firm_def scenario1_conditions_def py_int_def default_market_def indebted_firm_def
      clear_labor_market_def assign_employees_def shuffle_def py_prefix_def Let_def
      plain_household_def)

section \<open>Bankruptcy\<close>


lemma assign_loop_nth:
  "assign_loop n d w fs = Inr fs' \<Longrightarrow>
     length fs' = length fs \<and> (\<forall>i<length fs. assign_employees n d w (fs ! i) = Inr (fs' ! i))"
proof (induction fs arbitrary: fs')
  case Nil
  then show ?case by simp
next
  case (Cons f fs)
  then show ?case
    by (auto split: sum.splits simp: nth_Cons')
qed

text \<open>
  Whether or not the credit loop raises, every firm of the list it leaves is the firm it
  found or that firm after its own pass through the loop body.
\<close>

lemma credit_loop_effect_nth:
  "credit_loop_effect m r fs = (fs', res) \<Longrightarrow>
     length fs' = length fs
     \<and> (\<forall>i<length fs. fs' ! i = fs ! i \<or> fs' ! i = fst (credit_firm_effect m r (fs ! i)))"
proof (induction fs arbitrary: fs' res)
  case Nil
  then show ?case by simp
next
  case (Cons f fs)
  obtain f' e where cf: "credit_firm_effect m r f = (f', e)" by (cases "credit_firm_effect m r f")
  show ?case
  proof (cases e)
    case (Some er)
    with Cons.prems cf show ?thesis by (auto simp: nth_Cons')
  next
    case None
    obtain fs1 r1 where cl: "credit_loop_effect m r fs = (fs1, r1)"
      by (cases "credit_loop_effect m r fs")
    with Cons.prems cf None have "fs' = f' # fs1" by simp
    with Cons.IH [OF cl] cf show ?thesis by (auto simp: nth_Cons')
  qed
qed

text \<open>The loop that keeps the state agrees with \<open>credit_loop\<close>.\<close>

lemma credit_firm_effect_agrees:
  "credit_firm m r f =
     (case credit_firm_effect m r f of (f', None) \<Rightarrow> Inr f' | (f', Some e) \<Rightarrow> Inl e)"
  by (simp add: credit_firm_def credit_firm_effect_def Let_def split: option.splits)

lemma credit_loop_effect_agrees:
  "credit_loop m r fs =
     (case credit_loop_effect m r fs of (fs', None) \<Rightarrow> Inr fs' | (fs', Some e) \<Rightarrow> Inl e)"
proof (induction fs)
  case Nil
  then show ?case by simp
next
  case (Cons f fs)
  then show ?case
    by (simp add: credit_firm_effect_agrees split: prod.splits option.splits)
qed

lemma produce_frozen: "frozen f \<Longrightarrow> frozen (produce f)"
  by (simp add: produce_def frozen_def)

lemma post_market_frozen: "frozen f \<Longrightarrow> post_market_step f = Inr f' \<Longrightarrow> frozen f'"
  by (auto simp: post_market_step_def frozen_def)

lemma assign_frozen: "frozen f \<Longrightarrow> assign_employees n d w f = Inr f' \<Longrightarrow> frozen f'"
  by (auto simp: assign_employees_def frozen_def py_int_def Let_def)

lemma credit_frozen: "frozen f \<Longrightarrow> frozen (fst (credit_firm_effect m r f))"
  by (auto simp: credit_firm_effect_def frozen_def Let_def split: option.splits)

lemma goods_frozen:
  "i < length fs \<Longrightarrow> frozen (fs ! i) \<Longrightarrow>
   length (fst (clear_goods_market m hs fs)) = length fs \<and> frozen (fst (clear_goods_market m hs fs) ! i)"
  by (simp add: clear_goods_market_def Let_def frozen_def)

lemma labor_frozen:
  assumes "i < length fs" and "frozen (fs ! i)"
    and "clear_labor_market m perm hs fs = Inr (hs', fs', w, r)"
  shows "length fs' = length fs \<and> frozen (fs' ! i)"
proof -
  from assms(3) obtain n d wg where "assign_loop n d wg fs = Inr fs'"
    by (auto simp: clear_labor_market_def Let_def split: sum.splits if_splits)
  from assign_loop_nth [OF this] assms(1,2) show ?thesis
    using assign_frozen by blast
qed

lemma apply_call_frozen:
  assumes "i < length fs" and "frozen (fs ! i)" and "apply_call m c (hs, fs) = ((hs', fs'), r)"
  shows "length fs' = length fs \<and> frozen (fs' ! i)"
proof (cases c)
  case (StepFirm j mc)
  with assms show ?thesis
    by (auto split: if_splits sum.splits simp: nth_list_update frozen_def firm_step_def)
next
  case (ProduceFirm j)
  with assms show ?thesis
    by (auto split: if_splits simp: nth_list_update produce_frozen)
next
  case (PostMarketFirm j)
  with assms show ?thesis
    by (auto split: if_splits sum.splits simp: nth_list_update post_market_frozen)
next
  case (ClearLabor perm)
  with assms show ?thesis
    by (auto split: sum.splits dest: labor_frozen)
next
  case ClearGoods
  with assms show ?thesis
    using goods_frozen by auto
next
  case (ClearCredit g)
  show ?thesis
  proof (cases "current_interest_rate g")
    case None
    with ClearCredit assms show ?thesis by simp
  next
    case (Some rate)
    with ClearCredit assms(3) have "credit_loop_effect m rate fs = (fs', r)"
      by (auto split: prod.splits)
    from credit_loop_effect_nth [OF this] assms(1,2) show ?thesis
      using credit_frozen by metis
  qed
qed

lemma run_calls_frozen:
  "i < length fs \<Longrightarrow> frozen (fs ! i) \<Longrightarrow> run_calls m cs (hs, fs) = ((hs', fs'), r)
     \<Longrightarrow> length fs' = length fs \<and> frozen (fs' ! i)"
proof (induction cs arbitrary: hs fs)
  case Nil
  then show ?case by simp
next
  case (Cons c cs)
  obtain hs1 fs1 r1 where a: "apply_call m c (hs, fs) = ((hs1, fs1), r1)"
    by (metis prod.exhaust)
  from apply_call_frozen [OF Cons.prems(1,2) a]
  have l: "length fs1 = length fs" and f: "frozen (fs1 ! i)" by simp_all
  show ?case
  proof (cases r1)
    case (Some e)
    with Cons.prems(3) a l f show ?thesis by simp
  next
    case None
    with Cons.prems(3) a have "run_calls m cs (hs1, fs1) = ((hs', fs'), r)" by simp
    from Cons.IH [OF _ f this] l Cons.prems(1) show ?thesis by simp
  qed
qed


text \<open>No call ever sets \<open>alive\<close> back to true.\<close>

lemma assign_dead: "\<not> alive f \<Longrightarrow> assign_employees n d w f = Inr f' \<Longrightarrow> \<not> alive f'"
  by (auto simp: assign_employees_def Let_def split: option.splits)

lemma credit_dead: "\<not> alive f \<Longrightarrow> \<not> alive (fst (credit_firm_effect m r f))"
  by (auto simp: credit_firm_effect_def Let_def split: option.splits)

lemma apply_call_dead:
  assumes "i < length fs" and "\<not> alive (fs ! i)" and "apply_call m c (hs, fs) = ((hs', fs'), r)"
  shows "length fs' = length fs \<and> \<not> alive (fs' ! i)"
proof (cases c)
  case (StepFirm j mc)
  with assms show ?thesis
    by (auto split: if_splits sum.splits simp: nth_list_update firm_step_def)
next
  case (ProduceFirm j)
  with assms show ?thesis
    by (auto split: if_splits simp: nth_list_update produce_def)
next
  case (PostMarketFirm j)
  with assms show ?thesis
    by (auto split: if_splits sum.splits simp: nth_list_update post_market_step_def)
next
  case (ClearLabor perm)
  show ?thesis
  proof (cases "clear_labor_market m perm hs fs")
    case (Inl e)
    with ClearLabor assms show ?thesis by simp
  next
    case (Inr res)
    with ClearLabor assms(3) obtain n d wg where "assign_loop n d wg fs = Inr fs'"
      by (auto simp: clear_labor_market_def Let_def split: sum.splits if_splits)
    from assign_loop_nth [OF this] assms(1,2) show ?thesis
      using assign_dead by blast
  qed
next
  case ClearGoods
  have "length (fst (clear_goods_market m hs fs)) = length fs
      \<and> \<not> alive (fst (clear_goods_market m hs fs) ! i)"
    using assms(1,2) by (simp add: clear_goods_market_def Let_def)
  with ClearGoods assms(3) show ?thesis by auto
next
  case (ClearCredit g)
  show ?thesis
  proof (cases "current_interest_rate g")
    case None
    with ClearCredit assms show ?thesis by simp
  next
    case (Some rate)
    with ClearCredit assms(3) have "credit_loop_effect m rate fs = (fs', r)"
      by (auto split: prod.splits)
    from credit_loop_effect_nth [OF this] assms(1,2) show ?thesis
      using credit_dead by metis
  qed
qed

lemma run_calls_dead:
  "i < length fs \<Longrightarrow> \<not> alive (fs ! i) \<Longrightarrow> run_calls m cs (hs, fs) = ((hs', fs'), r)
     \<Longrightarrow> length fs' = length fs \<and> \<not> alive (fs' ! i)"
proof (induction cs arbitrary: hs fs)
  case Nil
  then show ?case by simp
next
  case (Cons c cs)
  obtain hs1 fs1 r1 where a: "apply_call m c (hs, fs) = ((hs1, fs1), r1)"
    by (metis prod.exhaust)
  from apply_call_dead [OF Cons.prems(1,2) a]
  have l: "length fs1 = length fs" and f: "\<not> alive (fs1 ! i)" by simp_all
  show ?case
  proof (cases r1)
    case (Some e)
    with Cons.prems(3) a l f show ?thesis by simp
  next
    case None
    with Cons.prems(3) a have "run_calls m cs (hs1, fs1) = ((hs', fs'), r)" by simp
    from Cons.IH [OF _ f this] l Cons.prems(1) show ?thesis by simp
  qed
qed

text \<open>The definitions a tick of the example unfolds to.\<close>

lemmas tick_eval = tick_calls_def firm_step_def labor_required_def expected_demand_def
      max_labor_budget_def scenario1_firm_def costly_conditions_def py_int_def costly_market_def
      default_market_def clear_labor_market_def assign_employees_def shuffle_def py_prefix_def
      Let_def produce_def clear_goods_market_def post_market_step_def plain_household_def
      central_bank_def credit_firm_effect_def bankrupt_firm_def

text \<open>
  C7, as the claim states it, fails. At a wage of 500 a fresh startup hires two workers,
  sells nothing and goes bankrupt in \<open>post_market_step\<close> (capital -100, employees and
  production 0), with its desired labour still 2; the tick raises nothing. A labour
  clearing that runs before the firm's next \<open>step\<close> gives the dead firm two employees
  again, and \<open>produce\<close> a production of 1.6.
\<close>

theorem C7_dead_firm_rehired:
  "\<exists>hs1 fs1 hs2 fs2.
     run_calls costly_market tick_calls ([plain_household 0, plain_household 1], [scenario1_firm])
       = ((hs1, fs1), None)
     \<and> \<not> alive (fs1 ! 0) \<and> employees (fs1 ! 0) = 0 \<and> production (fs1 ! 0) = 0
     \<and> run_calls costly_market [ClearLabor [0, 1], ProduceFirm 0] (hs1, fs1) = ((hs2, fs2), None)
     \<and> \<not> alive (fs2 ! 0) \<and> employees (fs2 ! 0) = 2 \<and> production (fs2 ! 0) = 16/10"
  by (simp add: tick_eval)

text \<open>
  C7, amended: for a firm with \<open>alive = false\<close> and employees and production at zero,
  every sequence of \<open>step\<close>, \<open>produce\<close>, \<open>post_market_step\<close> calls and market
  clearings, whether it runs to its end or is stopped by an exception, leaves
  \<open>alive = false\<close>; and every such sequence that begins with the firm's own \<open>step\<close>,
  as every tick of the orchestrator does, also leaves employees and production at zero.
\<close>

theorem C7_bankruptcy_irreversible:
  assumes "i < length fs" and "\<not> alive (fs ! i)"
    and "employees (fs ! i) = 0" and "production (fs ! i) = 0"
  shows "\<not> alive (snd (fst (run_calls m cs (hs, fs))) ! i)
       \<and> \<not> alive (snd (fst (run_calls m (StepFirm i mc # cs) (hs, fs))) ! i)
       \<and> employees (snd (fst (run_calls m (StepFirm i mc # cs) (hs, fs))) ! i) = 0
       \<and> production (snd (fst (run_calls m (StepFirm i mc # cs) (hs, fs))) ! i) = 0"
proof -
  obtain hs' fs' r where a: "run_calls m cs (hs, fs) = ((hs', fs'), r)"
    by (metis prod.exhaust)
  from run_calls_dead [OF assms(1,2) a] have dead: "\<not> alive (fs' ! i)" by simp
  have step: "firm_step mc (fs ! i) = Inr ((fs ! i)\<lparr>desired_labor := Some 0, production := 0\<rparr>)"
    using assms(2) by (simp add: firm_step_def)
  define fs1 where "fs1 = fs[i := (fs ! i)\<lparr>desired_labor := Some 0, production := 0\<rparr>]"
  obtain hs2 fs2 r2 where b: "run_calls m cs (hs, fs1) = ((hs2, fs2), r2)"
    by (metis prod.exhaust)
  have c: "run_calls m (StepFirm i mc # cs) (hs, fs) = ((hs2, fs2), r2)"
    using assms(1) step b by (simp add: fs1_def)
  have "i < length fs1" "frozen (fs1 ! i)"
    using assms by (simp_all add: fs1_def frozen_def)
  from run_calls_frozen [OF this b] have "frozen (fs2 ! i)" by simp
  with dead show ?thesis unfolding a c by (simp add: frozen_def)
qed

text \<open>
  The theorem at a bankrupt startup and one tick of the orchestrator: the credit market
  grants it 3, raises AttributeError at its missing debt and stops the tick; the firm is
  left with a capital of -97, dead, without employees and without production.
\<close>

theorem C7_bankruptcy_irreversible_witness:
  "(0::nat) < length [bankrupt_firm] \<and> \<not> alive ([bankrupt_firm] ! 0)
   \<and> employees ([bankrupt_firm] ! 0) = 0 \<and> production ([bankrupt_firm] ! 0) = 0
   \<and> (\<exists>hs fs. run_calls costly_market tick_calls
                  ([plain_household 0, plain_household 1], [bankrupt_firm])
                = ((hs, fs), Some AttributeError)
         \<and> capital (fs ! 0) = - 97
         \<and> \<not> alive (fs ! 0) \<and> employees (fs ! 0) = 0 \<and> production (fs ! 0) = 0)"
proof -
  have pre: "(0::nat) < length [bankrupt_firm]" "\<not> alive ([bankrupt_firm] ! 0)"
    "employees ([bankrupt_firm] ! 0) = 0" "production ([bankrupt_firm] ! 0) = 0"
    by (simp_all add: bankrupt_firm_def scenario1_firm_def)
  obtain hs fs where run: "run_calls costly_market tick_calls
      ([plain_household 0, plain_household 1], [bankrupt_firm]) = ((hs, fs), Some AttributeError)"
    and cap: "capital (fs ! 0) = - 97"
    by (simp add: tick_eval)
  from C7_bankruptcy_irreversible [OF pre, of costly_market
      "[ClearLabor [0, 1], ProduceFirm 0, ClearGoods, ClearCredit central_bank, PostMarketFirm 0]"
      "[plain_household 0, plain_household 1]" costly_conditions] run
  have "\<not> alive (fs ! 0) \<and> employees (fs ! 0) = 0 \<and> production (fs ! 0) = 0"
    by (simp add: tick_calls_def)
  with pre run cap show ?thesis by blast
qed

section \<open>The macro aggregates at a step boundary\<close>

lemma node_unrest_range: "node_unrest g st nz a = Inr v \<Longrightarrow> unit_interval v"
  by (auto simp: node_unrest_def Let_def clip_unrest_def np_clip_def unit_interval_def
      split: option.splits if_splits sum.splits)

lemma spread_loop_range:
  "spread_loop g st nz ns acc = Inr new \<Longrightarrow> (\<And>a v. acc a = Some v \<Longrightarrow> unit_interval v)
     \<Longrightarrow> new a = Some v \<Longrightarrow> unit_interval v"
proof (induction ns arbitrary: acc)
  case Nil
  then show ?case by simp
next
  case (Cons n ns)
  from Cons.prems(1) obtain x where x: "node_unrest g st nz n = Inr x"
    and rest: "spread_loop g st nz ns (acc(n \<mapsto> x)) = Inr new"
    by (auto split: sum.splits)
  have "\<And>a v. (acc(n \<mapsto> x)) a = Some v \<Longrightarrow> unit_interval v"
    using Cons.prems(2) node_unrest_range [OF x] by (auto split: if_splits)
  from Cons.IH [OF rest this Cons.prems(3)] show ?case .
qed

lemma spread_influence_range:
  "spread_influence g st nz = Inr new \<Longrightarrow> new a = Some v \<Longrightarrow> unit_interval v"
  unfolding spread_influence_def by (erule spread_loop_range) simp_all

lemma assign_unrest_range:
  "assign_unrest upd hs = Inr hs' \<Longrightarrow> (\<And>a v. upd a = Some v \<Longrightarrow> unit_interval v)
     \<Longrightarrow> length hs' = length hs \<and> (\<forall>h \<in> set hs'. unit_interval (unrest h))"
proof (induction hs arbitrary: hs')
  case Nil
  then show ?case by simp
next
  case (Cons h hs)
  from Cons.prems(1) obtain u hs1 where u: "upd (hid h) = Some u"
    and r: "assign_unrest upd hs = Inr hs1" and e: "hs' = h\<lparr>unrest := u\<rparr> # hs1"
    by (auto split: option.splits sum.splits)
  from Cons.IH [OF r Cons.prems(2)] Cons.prems(2) [OF u] e show ?case by simp
qed

lemma apply_shock_frame:
  "apply_shock sh (econ, hs, fs) = (econ', hs', fs') \<Longrightarrow>
     length hs' = length hs \<and> map debt fs' = map debt fs"
  by (auto simp: apply_shock_def split: if_splits)

lemma decay_loop_frame:
  "decay_loop shs (econ, hs, fs) acc = ((econ', hs', fs'), acc') \<Longrightarrow>
     length hs' = length hs \<and> map debt fs' = map debt fs"
proof (induction shs arbitrary: econ hs fs acc)
  case Nil
  then show ?case by simp
next
  case (Cons sh shs)
  obtain e1 h1 f1 where a: "apply_shock sh (econ, hs, fs) = (e1, h1, f1)"
    by (metis prod_cases3)
  from Cons.prems have "decay_loop shs (e1, h1, f1)
      (if duration sh - 1 > 0 then acc @ [sh\<lparr>duration := duration sh - 1\<rparr>] else acc)
      = ((econ', hs', fs'), acc')"
    by (simp add: a Let_def)
  from Cons.IH [OF this] apply_shock_frame [OF a] show ?case by simp
qed

lemma maybe_trigger_frame:
  "maybe_trigger rd sm (econ, hs, fs) = (sm', (econ', hs', fs')) \<Longrightarrow>
     length hs' = length hs \<and> map debt fs' = map debt fs"
  by (auto simp: maybe_trigger_def Let_def split: prod.splits dest: decay_loop_frame)

lemma py_int_nonneg: "0 \<le> x \<Longrightarrow> 0 \<le> py_int x"
  by (simp add: py_int_def)

lemma py_int_neg: "py_int x < 0 \<Longrightarrow> x < 0"
  by (auto simp: py_int_def split: if_splits)

lemma firm_step_planned:
  assumes "firm_step mc f = Inr f'" and "mc_shock_multiplier mc = None"
  shows "planned f' \<and> debt f' = debt f \<and> capital f' = capital f"
proof (cases "alive f")
  case False
  with assms show ?thesis by (auto simp: firm_step_def planned_def)
next
  case True
  with assms(1) obtain lr where lr: "labor_required f mc = Inr lr"
    and f': "f' = f\<lparr>desired_labor := Some (min lr (py_int (max_labor_budget f mc))),
                   price := price f * (1 + mc_inflation mc * (1/2) * pricing_power f),
                   revenue := Some 0, wage_bill := Some 0\<rparr>"
    by (auto simp: firm_step_def split: sum.splits)
  from lr have p: "productivity f \<noteq> 0" and lrv: "lr = py_int (expected_demand f mc / productivity f)"
    by (auto simp: labor_required_def split: if_splits)
  have "expected_demand f mc / productivity f = max (mc_demand mc) 100"
    using p assms(2) by (simp add: expected_demand_def)
  then have "0 \<le> lr" unfolding lrv by (simp add: py_int_nonneg)
  moreover have "capital f < 0" if "py_int (max_labor_budget f mc) < 0"
  proof -
    from py_int_neg [OF that] have "capital f / max (mc_wage mc) 1 < 0"
      by (simp add: max_labor_budget_def)
    then show ?thesis by (simp add: divide_less_0_iff)
  qed
  ultimately have "0 \<le> min lr (py_int (max_labor_budget f mc)) \<or> capital f < 0"
    by (cases "py_int (max_labor_budget f mc) < 0") auto
  then show ?thesis unfolding f' planned_def by simp
qed

lemma step_firms_planned:
  "step_firms mc fs = Inr fs' \<Longrightarrow> mc_shock_multiplier mc = None \<Longrightarrow>
     list_all planned fs' \<and> map debt fs' = map debt fs"
proof (induction fs arbitrary: fs')
  case Nil
  then show ?case by simp
next
  case (Cons f fs)
  from Cons.prems(1) obtain f1 fs1 where a: "firm_step mc f = Inr f1"
    and r: "step_firms mc fs = Inr fs1" and e: "fs' = f1 # fs1"
    by (auto split: sum.splits)
  from Cons.IH [OF r Cons.prems(2)] firm_step_planned [OF a Cons.prems(2)] e show ?case by simp
qed

lemma act_loop_frame:
  "act_loop ou hs st = Inr (hs', st') \<Longrightarrow> length hs' = length hs"
  by (induction hs arbitrary: hs' st st') (auto split: sum.splits)

lemma step_decide_props:
  assumes "step_decide dr a e = Inr e1"
  shows "length (env_households e1) = length (env_households e)
       \<and> (\<forall>h \<in> set (env_households e1). unit_interval (unrest h))
       \<and> list_all planned (env_firms e1)
       \<and> map debt (env_firms e1) = map debt (env_firms e)"
proof -
  obtain sm econ1 hs1 fs1 where mt: "maybe_trigger (shock_draws dr) (env_shocks e)
      (economics (env_state e), env_households e, env_firms e) = (sm, (econ1, hs1, fs1))"
    by (metis prod_cases3)
  define mc where "mc = \<lparr> mc_demand = gdp (apply_policy a econ1),
      mc_wage = base_wage (env_market e) * wage_index (apply_policy a econ1),
      mc_inflation = inflation (apply_policy a econ1), mc_shock_multiplier = None \<rparr>"
  from assms obtain fs2 hs2 st upd hs3 where
    sf: "step_firms mc fs1 = Inr fs2"
    and al: "act_loop (avg_unrest (apply_policy a econ1)) hs1 Map.empty = Inr (hs2, st)"
    and sp: "spread_influence (env_social_graph e) st (noise_draws dr) = Inr upd"
    and au: "assign_unrest upd hs2 = Inr hs3"
    and hs: "env_households e1 = hs3" and fs: "env_firms e1 = fs2"
    unfolding step_decide_def mt Let_def prod.case mc_def
    by (auto split: sum.splits)
  have mcn: "mc_shock_multiplier mc = None" by (simp add: mc_def)
  from maybe_trigger_frame [OF mt] have l1: "length hs1 = length (env_households e)"
    and d1: "map debt fs1 = map debt (env_firms e)" by simp_all
  from assign_unrest_range [OF au spread_influence_range [OF sp]]
  have "length hs3 = length hs2" "\<forall>h \<in> set hs3. unit_interval (unrest h)" by simp_all
  moreover from act_loop_frame [OF al] have "length hs2 = length hs1" .
  moreover from step_firms_planned [OF sf mcn]
  have "list_all planned fs2" "map debt fs2 = map debt fs1" by simp_all
  ultimately show ?thesis using l1 d1 hs fs by simp
qed

lemma assign_loop_frame:
  "assign_loop n d w fs = Inr fs' \<Longrightarrow>
     map capital fs' = map capital fs \<and> map debt fs' = map debt fs"
  by (induction fs arbitrary: fs')
    (auto split: sum.splits option.splits simp: assign_employees_def Let_def)

lemma credit_loop_no_debt:
  "credit_loop m r fs = Inr fs' \<Longrightarrow> list_all (\<lambda>f. debt f = None) fs \<Longrightarrow>
     fs' = fs \<and> list_all (\<lambda>f. 0 \<le> capital f) fs"
  by (induction fs arbitrary: fs')
    (auto split: sum.splits option.splits if_splits simp: credit_firm_def Let_def)

lemma settle_firms_frame: "settle_firms fs = Inr fs' \<Longrightarrow> map debt fs' = map debt fs"
  by (induction fs arbitrary: fs')
    (auto split: sum.splits option.splits if_splits simp: post_market_step_def Let_def)

lemma goods_market_frame:
  "map capital (fst (clear_goods_market m hs fs)) = map capital fs
   \<and> map debt (fst (clear_goods_market m hs fs)) = map debt fs"
  by (simp add: clear_goods_market_def Let_def o_def)

lemma labor_demand_nonneg:
  "labor_demand_sum fs = Inr d \<Longrightarrow> list_all planned fs \<Longrightarrow> list_all (\<lambda>f. 0 \<le> capital f) fs
     \<Longrightarrow> 0 \<le> d"
  by (induction fs arbitrary: d)
    (auto split: sum.splits option.splits simp: planned_def)

lemma list_all_map_eq:
  "map g xs = map g ys \<Longrightarrow> list_all (\<lambda>x. P (g x)) xs = list_all (\<lambda>x. P (g x)) ys"
  by (metis (no_types, lifting) list.pred_map o_def list_all_cong)

lemma is_shuffle_set: "is_shuffle perm n \<Longrightarrow> set perm = {0..<n}"
  by (metis is_shuffle_def set_sort set_upt)

lemma map_unrest_hired:
  "map unrest
     (map (\<lambda>h. h\<lparr>employed := Some True, wealth := wealth h + w\<rparr>)
        (take k (map (\<lambda>h. h\<lparr>employed := Some False\<rparr>) xs))
      @ drop k (map (\<lambda>h. h\<lparr>employed := Some False\<rparr>) xs)) = map unrest xs"
proof -
  have "map unrest (take k xs) @ map unrest (drop k xs) = map unrest xs"
    by (metis append_take_drop_id map_append)
  then show ?thesis by (simp add: take_map drop_map o_def)
qed

lemma labor_market_props:
  assumes ok: "clear_labor_market m perm hs fs = Inr (hs', fs', wage, rate)"
  shows "hs \<noteq> [] \<and> map unrest hs' = map unrest (shuffle perm hs)
       \<and> map capital fs' = map capital fs \<and> map debt fs' = map debt fs
       \<and> (\<exists>d. labor_demand_sum fs = Inr d
              \<and> rate = 1 - real_of_int (min (int (length hs)) d) / real (length hs))"
proof -
  from ok obtain d where d: "labor_demand_sum fs = Inr d" and ne: "hs \<noteq> []"
    and al: "assign_loop (min (int (length hs)) d) d wage fs = Inr fs'"
    and r: "rate = 1 - real_of_int (min (int (length hs)) d) / real (length hs)"
    and h: "hs' = map (\<lambda>h. h\<lparr>employed := Some True, wealth := wealth h + wage\<rparr>)
         (take (length (py_prefix (min (int (length hs)) d) (shuffle perm hs)))
            (map (\<lambda>h. h\<lparr>employed := Some False\<rparr>) (shuffle perm hs)))
       @ drop (length (py_prefix (min (int (length hs)) d) (shuffle perm hs)))
            (map (\<lambda>h. h\<lparr>employed := Some False\<rparr>) (shuffle perm hs))"
    by (auto simp: clear_labor_market_def Let_def split: sum.splits if_splits)
  have "map unrest hs' = map unrest (shuffle perm hs)"
    unfolding h by (rule map_unrest_hired)
  with d ne r assign_loop_frame [OF al] show ?thesis by blast
qed

lemma step_markets_props:
  assumes ok: "step_markets dr e = Inr (e2, u)"
    and nd: "list_all (\<lambda>f. debt f = None) (env_firms e)"
  shows "list_all (\<lambda>f. debt f = None) (env_firms e2)
       \<and> env_state e2 = env_state e \<and> env_government e2 = env_government e
       \<and> env_timestep e2 = env_timestep e \<and> env_max_steps e2 = env_max_steps e
       \<and> (list_all planned (env_firms e) \<longrightarrow> unit_interval u)
       \<and> (is_shuffle (shuffle_perm dr) (length (env_households e))
            \<longrightarrow> env_households e2 \<noteq> [])
       \<and> (is_shuffle (shuffle_perm dr) (length (env_households e))
            \<longrightarrow> (\<forall>h \<in> set (env_households e). unit_interval (unrest h))
            \<longrightarrow> (\<forall>h \<in> set (env_households e2). unit_interval (unrest h)))"
proof -
  from ok obtain hs fs1 wage where
    lab: "clear_labor_market (env_market e) (shuffle_perm dr) (env_households e) (env_firms e)
            = Inr (hs, fs1, wage, u)"
    by (auto simp: step_markets_def split: sum.splits prod.splits)
  define fs3 where "fs3 = fst (clear_goods_market (env_market e) hs (map produce fs1))"
  from ok lab obtain fs4 rate fs5 where
    cr: "clear_credit_market (env_market e) fs3 (env_government e) = Inr (fs4, rate)"
    and se: "settle_firms fs4 = Inr fs5"
    and e2: "e2 = e\<lparr>env_households := hs, env_firms := fs5\<rparr>"
    by (auto simp: step_markets_def Let_def fs3_def split: sum.splits prod.splits)
  from cr have cl: "credit_loop (env_market e) rate fs3 = Inr fs4"
    by (auto simp: clear_credit_market_def split: option.splits sum.splits)
  from labor_market_props [OF lab] obtain d where
    ne: "env_households e \<noteq> []"
    and un: "map unrest hs = map unrest (shuffle (shuffle_perm dr) (env_households e))"
    and c1: "map capital fs1 = map capital (env_firms e)"
    and d1: "map debt fs1 = map debt (env_firms e)"
    and dm: "labor_demand_sum (env_firms e) = Inr d"
    and u: "u = 1 - real_of_int (min (int (length (env_households e))) d)
                  / real (length (env_households e))"
    by blast
  have c3: "map capital fs3 = map capital (env_firms e)"
    unfolding fs3_def using goods_market_frame [of "env_market e" hs "map produce fs1"] c1
    by (simp add: produce_def o_def)
  have d3: "map debt fs3 = map debt (env_firms e)"
    unfolding fs3_def using goods_market_frame [of "env_market e" hs "map produce fs1"] d1
    by (simp add: produce_def o_def)
  have nd3: "list_all (\<lambda>f. debt f = None) fs3"
    using list_all_map_eq [OF d3, of "\<lambda>x. x = None"] nd by simp
  from credit_loop_no_debt [OF cl nd3] have same: "fs4 = fs3"
    and cap3: "list_all (\<lambda>f. 0 \<le> capital f) fs3" by simp_all
  have cap: "list_all (\<lambda>f. 0 \<le> capital f) (env_firms e)"
    using list_all_map_eq [OF c3, of "\<lambda>x. 0 \<le> x"] cap3 by simp
  have d5: "map debt fs5 = map debt (env_firms e)"
    using settle_firms_frame [OF se] same d3 by simp
  have nd5: "list_all (\<lambda>f. debt f = None) fs5"
    using list_all_map_eq [OF d5, of "\<lambda>x. x = None"] nd by simp
  have len: "length hs = length (shuffle_perm dr)"
    using arg_cong [OF un, of length] by (simp add: shuffle_def)
  have rate: "unit_interval u" if "list_all planned (env_firms e)"
  proof -
    from labor_demand_nonneg [OF dm that cap] have "0 \<le> d" .
    moreover have "0 < length (env_households e)" using ne by simp
    ultimately show ?thesis unfolding u unit_interval_def
      by (auto simp: min_def divide_le_eq)
  qed
  have unr: "\<forall>h \<in> set hs. unit_interval (unrest h)"
    if sh: "is_shuffle (shuffle_perm dr) (length (env_households e))"
      and ur: "\<forall>h \<in> set (env_households e). unit_interval (unrest h)"
  proof
    fix h assume "h \<in> set hs"
    then have "unrest h \<in> set (map unrest (shuffle (shuffle_perm dr) (env_households e)))"
      using un by (metis image_eqI set_map)
    then obtain i where "i \<in> set (shuffle_perm dr)" "unrest h = unrest (env_households e ! i)"
      by (auto simp: shuffle_def)
    with is_shuffle_set [OF sh] ur show "unit_interval (unrest h)" by simp
  qed
  have hne: "hs \<noteq> []" if sh: "is_shuffle (shuffle_perm dr) (length (env_households e))"
    using len is_shuffle_length [OF sh] ne by auto
  show ?thesis using nd5 rate unr hne by (simp add: e2)
qed

lemma sum_list_le_length: "(\<forall>x \<in> set xs. x \<le> 1) \<Longrightarrow> sum_list xs \<le> real (length xs)"
  by (induction xs) auto

lemma np_mean_range:
  assumes "xs \<noteq> []" and "\<forall>x \<in> set xs. unit_interval x"
  shows "unit_interval (np_mean xs)"
proof -
  have "0 \<le> sum_list xs" using assms(2) by (simp add: sum_list_nonneg unit_interval_def)
  moreover have "sum_list xs \<le> real (length xs)"
    using assms(2) by (simp add: sum_list_le_length unit_interval_def)
  moreover have "0 < real (length xs)" using assms(1) by simp
  ultimately show ?thesis by (simp add: np_mean_def unit_interval_def divide_le_eq)
qed

lemma calculate_gini_range: "unit_interval (calculate_gini ws)"
  by (simp add: calculate_gini_def Let_def unit_interval_def np_clip_def)

lemma calculate_wealth_share_range: "unit_interval (calculate_wealth_share A ws p)"
  by (simp add: calculate_wealth_share_def Let_def unit_interval_def np_clip_def)

lemma update_macros_range:
  assumes "update_macros randn u hs fs econ = Inr econ'"
    and "unit_interval u" and "hs \<noteq> []" and "\<forall>h \<in> set hs. unit_interval (unrest h)"
  shows "unit_interval (inflation econ') \<and> unit_interval (unemployment econ')
       \<and> unit_interval (gini_coeff econ') \<and> unit_interval (avg_unrest econ')
       \<and> unit_interval (top1_wealth_share econ') \<and> regime econ' = regime econ"
proof -
  have m: "unit_interval (np_mean (map unrest hs))"
    using assms(3,4) by (intro np_mean_range) auto
  have i: "unit_interval (np_clip (inflation econ + (1/100) * randn) 0 1)"
    by (simp add: unit_interval_def np_clip_def)
  from assms(1) obtain total where "econ' = update_growth
       (econ\<lparr>gdp := total,
              inflation := np_clip (inflation econ + (1/100) * randn) 0 1,
              unemployment := u,
              gini_coeff := calculate_gini (map wealth hs),
              top1_wealth_share := calculate_wealth_share exact (map wealth hs) (1/100),
              avg_unrest := np_mean (map unrest hs)\<rparr>)"
    by (auto simp: update_macros_def Let_def split: sum.splits)
  then show ?thesis
    using m i assms(2) calculate_gini_range calculate_wealth_share_range
    by (simp add: update_growth_def)
qed

lemma check_collapse_frame:
  "check_collapse econ = (econ', t) \<Longrightarrow>
     inflation econ' = inflation econ \<and> unemployment econ' = unemployment econ
     \<and> gini_coeff econ' = gini_coeff econ \<and> avg_unrest econ' = avg_unrest econ
     \<and> top1_wealth_share econ' = top1_wealth_share econ \<and> gdp econ' = gdp econ"
  by (auto simp: check_collapse_def split: if_splits)

lemma step_conclude_props:
  assumes "step_conclude dr u e = Inr (e', reward, terminated, truncated)"
  shows "env_firms e' = env_firms e \<and> env_households e' = env_households e
       \<and> (\<exists>econ. update_macros (inflation_draw dr) u (env_households e) (env_firms e)
                    (economics (env_state e)) = Inr econ
              \<and> check_collapse econ = (economics (env_state e'), terminated))
       \<and> truncated = (env_timestep e' \<ge> env_max_steps e')"
  using assms
  by (auto simp: step_conclude_def Let_def split: sum.splits prod.splits)

lemma env_step_phases:
  assumes "env_step dr a e = Inr res"
  shows "\<exists>e1 e2 u. step_decide dr a e = Inr e1 \<and> step_markets dr e1 = Inr (e2, u)
           \<and> step_conclude dr u e2 = Inr res"
  using assms by (auto simp: env_step_def split: sum.splits)

lemma FirmAgent_init_no_debt: "FirmAgent_init i a = Inr f \<Longrightarrow> debt f = None"
  by (auto simp: FirmAgent_init_def split: sum.splits)

lemma make_firms_no_debt: "make_firms ad is = Inr fs \<Longrightarrow> list_all (\<lambda>f. debt f = None) fs"
  by (induction "is" arbitrary: fs) (auto split: sum.splits dest: FirmAgent_init_no_debt)

lemma env_step_no_debt:
  assumes "env_step dr a e = Inr (e', reward, terminated, truncated)"
    and "list_all (\<lambda>f. debt f = None) (env_firms e)"
  shows "list_all (\<lambda>f. debt f = None) (env_firms e')"
proof -
  from env_step_phases [OF assms(1)] obtain e1 e2 u where
    d: "step_decide dr a e = Inr e1" and m: "step_markets dr e1 = Inr (e2, u)"
    and c: "step_conclude dr u e2 = Inr (e', reward, terminated, truncated)" by blast
  from step_decide_props [OF d] have "map debt (env_firms e1) = map debt (env_firms e)" by simp
  from list_all_map_eq [OF this, of "\<lambda>x. x = None"] assms(2)
  have "list_all (\<lambda>f. debt f = None) (env_firms e1)" by simp
  from step_markets_props [OF m this] step_conclude_props [OF c] show ?thesis by simp
qed

lemma reachable_no_debt: "reachable e \<Longrightarrow> list_all (\<lambda>f. debt f = None) (env_firms e)"
proof (induction rule: reachable.induct)
  case (constructed c class_draw wealth_draw archetype_draw adjacency e)
  then show ?case
    by (auto simp: BlackSwanEnv_init_def split: sum.splits dest: make_firms_no_debt)
next
  case (after_reset e)
  then show ?case by (simp add: env_reset_def)
next
  case (after_add_shock e t sev)
  then show ?case by simp
next
  case (after_step e dr a e' reward terminated truncated)
  from env_step_no_debt [OF after_step.hyps(3) after_step.IH] show ?case .
qed

text \<open>
  What does hold: for every reachable environment and every step from it that returns,
  the fields inflation, unemployment, gini_coeff, avg_unrest and top1_wealth_share of the
  economic state after the step lie in [0,1]. It holds because a step in which a firm's
  capital is negative at the credit market does not return, no firm having a debt
  attribute; a returned step therefore had no negative labour demand.
\<close>

lemma returned_step_fields_in_unit_interval:
  assumes "reachable e" and "is_shuffle (shuffle_perm dr) (length (env_households e))"
    and "env_step dr a e = Inr (e', reward, terminated, truncated)"
  shows "unit_interval (inflation (economics (env_state e')))
       \<and> unit_interval (unemployment (economics (env_state e')))
       \<and> unit_interval (gini_coeff (economics (env_state e')))
       \<and> unit_interval (avg_unrest (economics (env_state e')))
       \<and> unit_interval (top1_wealth_share (economics (env_state e')))"
proof -
  from env_step_phases [OF assms(3)] obtain e1 e2 u where
    d: "step_decide dr a e = Inr e1" and m: "step_markets dr e1 = Inr (e2, u)"
    and c: "step_conclude dr u e2 = Inr (e', reward, terminated, truncated)" by blast
  note dp = step_decide_props [OF d]
  from dp have "map debt (env_firms e1) = map debt (env_firms e)" by simp
  from list_all_map_eq [OF this, of "\<lambda>x. x = None"] reachable_no_debt [OF assms(1)]
  have nd: "list_all (\<lambda>f. debt f = None) (env_firms e1)" by simp
  have sh: "is_shuffle (shuffle_perm dr) (length (env_households e1))"
    using dp assms(2) by simp
  note mp = step_markets_props [OF m nd]
  from mp dp have u: "unit_interval u" by simp
  from mp sh have ne: "env_households e2 \<noteq> []" by simp
  from mp sh dp have ur: "\<forall>h \<in> set (env_households e2). unit_interval (unrest h)" by simp
  from step_conclude_props [OF c] obtain econ where
    um: "update_macros (inflation_draw dr) u (env_households e2) (env_firms e2)
           (economics (env_state e2)) = Inr econ"
    and cc: "check_collapse econ = (economics (env_state e'), terminated)" by blast
  from update_macros_range [OF um u ne ur] check_collapse_frame [OF cc]
  show ?thesis by simp
qed

lemma upt_0_2: "[0..<2] = [0, 1]"
  by (simp add: upt_rec)

lemma small_env_constructed:
  "BlackSwanEnv_init small_config (\<lambda>i. ''working'') (\<lambda>i. 5/4) (\<lambda>i. ''startup'') pair_adjacency
     = Inr small_env"
  by (simp add: BlackSwanEnv_init_def small_config_def config_get_def upt_0_2
      HouseholdAgent_init_def propensity_to_protest_def FirmAgent_init_def archetype_table_def
      SocialGraph_init_def small_env_def scenario1_firm_def MarketMechanism_init_def
      ShockManager_init_def default_market_def)

lemma small_env_step:
  "\<exists>e'. env_step calm_draws baseline_action small_env = Inr (e', 0, False, False)
    \<and> gdp (economics (env_state e')) = 16
    \<and> unemployment (economics (env_state e')) = 0
    \<and> top1_wealth_share (economics (env_state e')) = 1/2
    \<and> regime (economics (env_state e')) = ''stable''
    \<and> map capital (env_firms e') = [116]"
  by (simp add: env_step_def step_decide_def step_markets_def step_conclude_def
      calm_draws_def baseline_action_def small_env_def
      maybe_trigger_def Let_def GlobalState_init_def EconomicState_init_def apply_policy_def
      scenario1_firm_def firm_step_def labor_required_def expected_demand_def
      max_labor_budget_def py_int_def default_market_def household_act_def
      propensity_to_protest_def np_clip_def spread_influence_def node_unrest_def
      pair_adjacency_def clip_unrest_def GovernmentAgent_init_def
      clear_labor_market_def assign_employees_def shuffle_def py_prefix_def produce_def
      clear_goods_market_def clear_credit_market_def credit_firm_def post_market_step_def
      update_macros_def update_growth_def calculate_gini_def calculate_wealth_share_def exact_def
      np_mean_def government_compute_reward_def government_gdp_growth_def aggregate_unrest_def
      call_government_reward_def bind_keywords_def government_reward_def check_collapse_def)

lemma small_env_reachable: "reachable small_env"
  using small_env_constructed by (rule reachable.constructed)

lemma crash_draws_shuffle:
  "is_shuffle (shuffle_perm crash_draws) (length (env_households small_env))"
  by (simp add: is_shuffle_def crash_draws_def small_env_def upt_0_2)

text \<open>The definitions a step of the small environment unfolds to.\<close>

lemmas step_eval =
  env_step_def step_decide_def step_markets_def step_conclude_def
  crash_draws_def baseline_action_def small_env_def
  maybe_trigger_def Let_def GlobalState_init_def EconomicState_init_def apply_policy_def
  scenario1_firm_def firm_step_def labor_required_def expected_demand_def
  max_labor_budget_def py_int_def default_market_def household_act_def
  propensity_to_protest_def np_clip_def spread_influence_def node_unrest_def
  pair_adjacency_def clip_unrest_def GovernmentAgent_init_def
  clear_labor_market_def assign_employees_def shuffle_def py_prefix_def produce_def
  clear_goods_market_def clear_credit_market_def credit_firm_def post_market_step_def
  update_macros_def update_growth_def calculate_gini_def calculate_wealth_share_def exact_def
  np_mean_def government_compute_reward_def government_gdp_growth_def aggregate_unrest_def
  call_government_reward_def bind_keywords_def government_reward_def check_collapse_def
  add_shock_def apply_shock_def


text \<open>
  Were the firm built with a debt balance of 0, the same step would return, at a
  boundary where the unemployment is \<open>1 - min(2, -7) / 2 = 9/2\<close>: the labour market
  does not clamp a negative demand.
\<close>

lemma crash_step_with_debt_balance:
  "\<exists>e' reward.
      env_step crash_draws baseline_action indebted_env = Inr (e', reward, True, False)
    \<and> unemployment (economics (env_state e')) = 9/2"
  using tanh_real_lt_1 [of "54/49"] by (simp add: step_eval indebted_env_def)

section \<open>Collapse and truncation\<close>

lemma apply_shock_regime:
  "apply_shock sh (econ, hs, fs) = (econ', hs', fs') \<Longrightarrow> regime econ' = regime econ"
  by (auto simp: apply_shock_def split: if_splits)

lemma decay_loop_regime:
  "decay_loop shs (econ, hs, fs) acc = ((econ', hs', fs'), acc') \<Longrightarrow> regime econ' = regime econ"
proof (induction shs arbitrary: econ hs fs acc)
  case Nil
  then show ?case by simp
next
  case (Cons sh shs)
  obtain e1 h1 f1 where a: "apply_shock sh (econ, hs, fs) = (e1, h1, f1)"
    by (metis prod_cases3)
  from Cons.prems have "decay_loop shs (e1, h1, f1)
      (if duration sh - 1 > 0 then acc @ [sh\<lparr>duration := duration sh - 1\<rparr>] else acc)
      = ((econ', hs', fs'), acc')"
    by (simp add: a Let_def)
  from Cons.IH [OF this] apply_shock_regime [OF a] show ?case by simp
qed

lemma maybe_trigger_regime:
  "maybe_trigger rd sm (econ, hs, fs) = (sm', (econ', hs', fs')) \<Longrightarrow> regime econ' = regime econ"
  by (auto simp: maybe_trigger_def Let_def split: prod.splits dest: decay_loop_regime)

lemma step_decide_regime:
  assumes "step_decide dr a e = Inr e1"
  shows "regime (economics (env_state e1)) = regime (economics (env_state e))
       \<and> env_timestep e1 = env_timestep e + 1 \<and> env_max_steps e1 = env_max_steps e"
proof -
  obtain sm econ1 hs1 fs1 where mt: "maybe_trigger (shock_draws dr) (env_shocks e)
      (economics (env_state e), env_households e, env_firms e) = (sm, (econ1, hs1, fs1))"
    by (metis prod_cases3)
  from assms have "economics (env_state e1) = apply_policy a econ1
      \<and> env_timestep e1 = env_timestep e + 1 \<and> env_max_steps e1 = env_max_steps e"
    unfolding step_decide_def mt Let_def prod.case
    by (auto split: sum.splits)
  with maybe_trigger_regime [OF mt] show ?thesis by (simp add: apply_policy_def)
qed

lemma step_markets_frame:
  "step_markets dr e = Inr (e2, u) \<Longrightarrow>
     env_state e2 = env_state e \<and> env_timestep e2 = env_timestep e
     \<and> env_max_steps e2 = env_max_steps e"
  by (auto simp: step_markets_def Let_def split: sum.splits prod.splits)

lemma update_macros_regime:
  "update_macros randn u hs fs econ = Inr econ' \<Longrightarrow> regime econ' = regime econ"
  by (auto simp: update_macros_def Let_def update_growth_def split: sum.splits)

lemma check_collapse_verdict:
  "check_collapse econ = (econ', t) \<Longrightarrow>
     t = (avg_unrest econ' > 7/10 \<and> unemployment econ' > 15/100 \<or> gdp econ' < 1/1000)
     \<and> regime econ' = (if t then ''collapsed'' else regime econ)"
  by (auto simp: check_collapse_def split: if_splits)

text \<open>
  Scenario 4 at the check itself: an average unrest of 0.75 with an unemployment of 0.2
  collapses the regime, whatever the GDP.
\<close>

lemma scenario4_check_collapse:
  "check_collapse (EconomicState_init\<lparr>gdp := 10000, avg_unrest := 75/100, unemployment := 2/10\<rparr>)
     = (EconomicState_init\<lparr>gdp := 10000, avg_unrest := 75/100, unemployment := 2/10,
          regime := ''collapsed''\<rparr>, True)"
  by (simp add: check_collapse_def EconomicState_init_def)

text \<open>
  C4: for every step that returns, \<open>terminated\<close> is true exactly when the macro
  aggregates the step ends with have average unrest above 0.7 and unemployment above
  0.15, or a GDP below 0.001; the regime after the step is \<open>collapsed\<close> in that case and
  the regime before the step otherwise; and \<open>truncated\<close> is true exactly when the
  incremented timestep has reached \<open>max_steps\<close>.
\<close>

theorem C4_collapse_and_truncation:
  assumes "env_step dr a e = Inr (e', reward, terminated, truncated)"
  shows "terminated = (avg_unrest (economics (env_state e')) > 7/10
                        \<and> unemployment (economics (env_state e')) > 15/100
                      \<or> gdp (economics (env_state e')) < 1/1000)
       \<and> regime (economics (env_state e'))
           = (if terminated then ''collapsed'' else regime (economics (env_state e)))
       \<and> truncated = (env_timestep e' \<ge> env_max_steps e')
       \<and> env_timestep e' = env_timestep e + 1
       \<and> env_max_steps e' = env_max_steps e"
proof -
  from env_step_phases [OF assms] obtain e1 e2 u where
    d: "step_decide dr a e = Inr e1" and m: "step_markets dr e1 = Inr (e2, u)"
    and c: "step_conclude dr u e2 = Inr (e', reward, terminated, truncated)" by blast
  from step_conclude_props [OF c] obtain econ where
    um: "update_macros (inflation_draw dr) u (env_households e2) (env_firms e2)
           (economics (env_state e2)) = Inr econ"
    and cc: "check_collapse econ = (economics (env_state e'), terminated)"
    and tr: "truncated = (env_timestep e' \<ge> env_max_steps e')" by blast
  from c have t: "env_timestep e' = env_timestep e2" "env_max_steps e' = env_max_steps e2"
    by (auto simp: step_conclude_def Let_def split: sum.splits prod.splits)
  from update_macros_regime [OF um] step_markets_frame [OF m] step_decide_regime [OF d]
  have "regime econ = regime (economics (env_state e))"
    "env_timestep e2 = env_timestep e + 1" "env_max_steps e2 = env_max_steps e" by simp_all
  with check_collapse_verdict [OF cc] tr t show ?thesis by simp
qed

lemma firmless_env_constructed:
  "BlackSwanEnv_init (small_config\<lparr>cfg_num_firms := Some 0\<rparr>)
     (\<lambda>i. ''working'') (\<lambda>i. 5/4) (\<lambda>i. ''startup'') pair_adjacency = Inr firmless_env"
  by (simp add: BlackSwanEnv_init_def small_config_def config_get_def upt_0_2
      HouseholdAgent_init_def propensity_to_protest_def
      SocialGraph_init_def small_env_def firmless_env_def MarketMechanism_init_def
      ShockManager_init_def default_market_def)

lemma firmless_env_step: "\<exists>e'. env_step calm_draws baseline_action firmless_env = Inr (e', - (6/5), True, False)
    \<and> gdp (economics (env_state e')) = 0
    \<and> unemployment (economics (env_state e')) = 1
    \<and> regime (economics (env_state e')) = ''collapsed''"
  by (simp add: env_step_def step_decide_def step_markets_def step_conclude_def
      calm_draws_def baseline_action_def small_env_def firmless_env_def
      maybe_trigger_def Let_def GlobalState_init_def EconomicState_init_def apply_policy_def
      py_int_def default_market_def household_act_def
      propensity_to_protest_def np_clip_def spread_influence_def node_unrest_def
      pair_adjacency_def clip_unrest_def GovernmentAgent_init_def
      clear_labor_market_def assign_employees_def shuffle_def py_prefix_def produce_def
      clear_goods_market_def clear_credit_market_def credit_firm_def post_market_step_def
      update_macros_def update_growth_def calculate_gini_def calculate_wealth_share_def exact_def
      np_mean_def government_compute_reward_def government_gdp_growth_def aggregate_unrest_def
      call_government_reward_def bind_keywords_def government_reward_def check_collapse_def)

text \<open>
  The theorem at the first step of the firmless environment: no revenue, so the GDP is 0,
  the regime collapses and the step returns \<open>terminated\<close>, far from the horizon.
\<close>

theorem C4_collapse_witness:
  "\<exists>e'. env_step calm_draws baseline_action firmless_env = Inr (e', - (6/5), True, False)
      \<and> gdp (economics (env_state e')) < 1/1000
      \<and> regime (economics (env_state e')) = ''collapsed''
      \<and> regime (economics (env_state firmless_env)) = ''stable''
      \<and> env_timestep e' = 1 \<and> env_max_steps e' = 500"
proof -
  from firmless_env_step obtain e' where
    st: "env_step calm_draws baseline_action firmless_env = Inr (e', - (6/5), True, False)"
    and g: "gdp (economics (env_state e')) = 0" by blast
  have b: "regime (economics (env_state firmless_env)) = ''stable''"
    "env_timestep firmless_env = 0" "env_max_steps firmless_env = 500"
    by (simp_all add: firmless_env_def small_env_def GlobalState_init_def EconomicState_init_def)
  from C4_collapse_and_truncation [OF st] b
  have "regime (economics (env_state e')) = ''collapsed''"
    "env_timestep e' = 1" "env_max_steps e' = 500" by simp_all
  with st g b show ?thesis by simp
qed

section \<open>The government reward\<close>

text \<open>
  C5, as the claim states it, fails: with a previous GDP of 0.0000005 and a current GDP of
  0.0000006 the claimed growth is 1/5 and so is the claimed reward, while
  \<open>compute_reward\<close> divides by \<open>max(prev_gdp, 1e-6)\<close> and returns 1/10.
\<close>

theorem C5_growth_divides_by_floor:
  "government_compute_reward tiny_memory quiet_state
     = Inr (1/10, tiny_memory\<lparr>prev_gdp := Some (6/10000000)\<rparr>)
   \<and> claimed_gdp_growth (prev_gdp tiny_memory) (gdp (economics quiet_state)) = 1/5
   \<and> government_reward (claimed_gdp_growth (prev_gdp tiny_memory) (gdp (economics quiet_state)))
        (inflation (economics quiet_state)) (unemployment (economics quiet_state)) 0
        (gini_coeff (economics quiet_state)) (8/10) (12/10) 2 1 = 1/5"
  by (simp add: government_compute_reward_def tiny_memory_def quiet_state_def
      EconomicState_init_def government_gdp_growth_def aggregate_unrest_def
      call_government_reward_def bind_keywords_def government_reward_def np_clip_def
      claimed_gdp_growth_def Let_def)

lemma aggregate_loop_sums:
  "aggregate_loop hs tp wu = Inr (tp', wu') \<Longrightarrow>
     tp' = tp + population hs \<and> wu' = wu + weighted_unrest_sum hs"
proof (induction hs arbitrary: tp wu)
  case Nil
  then show ?case by (simp add: population_def weighted_unrest_sum_def)
next
  case (Cons h hs)
  from Cons.prems obtain s u0 where s: "member_size h = Some s" and u0: "unrest_level h = Some u0"
    and rest: "aggregate_loop hs (tp + max s 1) (wu + max s 1 * u0) = Inr (tp', wu')"
    by (auto split: option.splits)
  from Cons.IH [OF rest] s u0 show ?case
    by (simp add: population_def weighted_unrest_sum_def)
qed

lemma aggregate_unrest_value:
  assumes "aggregate_unrest gs = Inr u"
  shows "u = (if gs_households gs = [] then 0
              else np_clip (weighted_unrest_sum (gs_households gs) / population (gs_households gs)) 0 1)"
proof (cases "gs_households gs = []")
  case True
  with assms show ?thesis by (simp add: aggregate_unrest_def)
next
  case False
  with assms obtain tp wu where l: "aggregate_loop (gs_households gs) 0 0 = Inr (tp, wu)"
    and u: "u = np_clip (wu / tp) 0 1"
    by (auto simp: aggregate_unrest_def split: sum.splits prod.splits if_splits)
  from aggregate_loop_sums [OF l] u False show ?thesis by simp
qed

text \<open>
  C5, amended: whenever the aggregation over the households of the global state returns
  an unrest \<open>u\<close>, \<open>compute_reward\<close> returns the government reward of the GDP growth
  \<open>(current - previous) / max(previous, 1e-6)\<close> (0 without a previous GDP), the state's
  inflation, unemployment and Gini coefficient, and \<open>u\<close>, with the default weights, and
  remembers the current GDP; \<open>u\<close> is 0 for an empty collection and otherwise the average
  of \<open>unrest_level\<close> weighted by \<open>max(size, 1)\<close>, clipped to [0,1]; and the reward is
  the clipped sum of section 4.5 with 2 subtracted when the unrest is above 0.85 and the
  inequality above 0.6.
\<close>

theorem C5_government_compute_reward:
  assumes "aggregate_unrest gs = Inr u"
  shows "government_compute_reward g gs =
           Inr (government_reward
                  (case prev_gdp g of
                     None \<Rightarrow> 0
                   | Some p \<Rightarrow> (gdp (economics gs) - p) / max p (1/1000000))
                  (inflation (economics gs)) (unemployment (economics gs)) u
                  (gini_coeff (economics gs)) (8/10) (12/10) 2 1,
                g\<lparr>prev_gdp := Some (gdp (economics gs))\<rparr>)
       \<and> u = (if gs_households gs = [] then 0
              else np_clip (weighted_unrest_sum (gs_households gs)
                              / population (gs_households gs)) 0 1)
       \<and> government_reward growth i un u q (8/10) (12/10) 2 1 =
           np_clip (np_clip growth (- (25/100)) (25/100) - (8/10) * np_clip i 0 1
                      - (12/10) * np_clip un 0 1 - 2 * (np_clip u 0 1)\<^sup>2 - 1 * np_clip q 0 1
                    - (if np_clip u 0 1 > 85/100 \<and> np_clip q 0 1 > 6/10 then 2 else 0)) (- 5) 5"
proof -
  have a: "government_compute_reward g gs =
           Inr (government_reward
                  (case prev_gdp g of
                     None \<Rightarrow> 0
                   | Some p \<Rightarrow> (gdp (economics gs) - p) / max p (1/1000000))
                  (inflation (economics gs)) (unemployment (economics gs)) u
                  (gini_coeff (economics gs)) (8/10) (12/10) 2 1,
                g\<lparr>prev_gdp := Some (gdp (economics gs))\<rparr>)"
    using assms
    by (simp add: government_compute_reward_def call_government_reward_def bind_keywords_def
        government_gdp_growth_def Let_def)
  have c: "government_reward growth i un u q (8/10) (12/10) 2 1 =
           np_clip (np_clip growth (- (25/100)) (25/100) - (8/10) * np_clip i 0 1
                      - (12/10) * np_clip un 0 1 - 2 * (np_clip u 0 1)\<^sup>2 - 1 * np_clip q 0 1
                    - (if np_clip u 0 1 > 85/100 \<and> np_clip q 0 1 > 6/10 then 2 else 0)) (- 5) 5"
    by (simp add: government_reward_def Let_def)
  from a aggregate_unrest_value [OF assms] c show ?thesis by blast
qed

lemma tense_state_unrest: "aggregate_unrest tense_state = Inr (9/10)"
  by (simp add: aggregate_unrest_def tense_state_def np_clip_def)

text \<open>
  The theorem at a state with growth 0.1, inflation 0.1, unemployment 0.2, Gini 0.7 and
  two member groups of weights 3 and 1 with unrest 1 and 0.6: the unrest is 0.9, the
  surcharge applies, and the reward is
  \<open>0.1 - 0.08 - 0.24 - 1.62 - 0.7 - 2 = -4.54\<close>.
\<close>

theorem C5_government_compute_reward_witness:
  "aggregate_unrest tense_state = Inr (9/10)
   \<and> government_compute_reward \<lparr> prev_gdp = Some 100, current_interest_rate = None \<rparr> tense_state
       = Inr (- (454/100), \<lparr> prev_gdp = Some 110, current_interest_rate = None \<rparr>)"
  using C5_government_compute_reward [OF tense_state_unrest,
      of "\<lparr> prev_gdp = Some 100, current_interest_rate = None \<rparr>"] tense_state_unrest
  by (simp add: tense_state_def EconomicState_init_def np_clip_def power2_eq_square)

text \<open>
  A member without the attributes, such as a key of the dictionary or a
  \<open>HouseholdAgent\<close>, makes \<open>compute_reward\<close> raise AttributeError.
\<close>

lemma member_without_attributes_raises:
  "gs_households gs = \<lparr> member_size = None, unrest_level = None \<rparr> # rest \<Longrightarrow>
     government_compute_reward g gs = Inl AttributeError"
  by (simp add: government_compute_reward_def aggregate_unrest_def Let_def)

end
